theory Spec2Isabelle
  imports Complex_Main "HOL-Library.AList"
begin

section \<open>Errors\<close>

text \<open>
  Every exception of the source is a value: a function that can raise returns
  \<open>error + 'a\<close>, with \<open>Inl\<close> for the exception.
\<close>

datatype error =
    TypeError string
  | KeyError string
  | IndexError
  | ValueError string
  | OutOfBoundsDatetime
  | FileNotFoundError string
  | FileExistsError string
  | ValidationError string
  | RemoteError string

section \<open>Timestamps and time bounds\<close>

text \<open>
  A \<^verbatim>\<open>np.datetime64\<close> is either \<^verbatim>\<open>NaT\<close> or a point in time: a calendar date and
  the nanoseconds since midnight (0 for the day-resolution values the dataset classes
  are built from, as in \<^verbatim>\<open>np.datetime64("1940-01-01")\<close>). Resolutions finer than a
  nanosecond are not modelled. \<open>TimeBounds\<close> is the pair of fields \<open>start\<close> and \<open>end\<close>
  of the source (named \<open>tb_start\<close> and \<open>tb_end\<close> here, since \<open>end\<close> is reserved).
\<close>

record date =
  year :: int
  month :: nat
  day :: nat

datatype datetime64 = NaT | Stamp date nat

record TimeBounds =
  tb_start :: datetime64
  tb_end :: datetime64

definition date_le :: "date \<Rightarrow> date \<Rightarrow> bool" where
  "date_le a b =
     (year a < year b \<or>
      (year a = year b \<and> (month a < month b \<or> (month a = month b \<and> day a \<le> day b))))"

definition date_less :: "date \<Rightarrow> date \<Rightarrow> bool" where
  "date_less a b = (date_le a b \<and> a \<noteq> b)"

definition is_leap :: "int \<Rightarrow> bool" where
  "is_leap y = (y mod 4 = 0 \<and> (y mod 100 \<noteq> 0 \<or> y mod 400 = 0))"

definition days_in_month :: "int \<Rightarrow> nat \<Rightarrow> nat" where
  "days_in_month y m =
     (if m = 2 then (if is_leap y then 29 else 28)
      else if m = 4 \<or> m = 6 \<or> m = 9 \<or> m = 11 then 30 else 31)"

definition valid_date :: "date \<Rightarrow> bool" where
  "valid_date d =
     (1 \<le> month d \<and> month d \<le> 12 \<and> 1 \<le> day d \<and> day d \<le> days_in_month (year d) (month d))"

definition is_month_end :: "date \<Rightarrow> bool" where
  "is_month_end d = (day d = days_in_month (year d) (month d))"

text \<open>
  A pandas \<^verbatim>\<open>Timestamp\<close>: a date and the nanoseconds since midnight, ordered by date
  and then by time of day. It counts nanoseconds in 64 bits, so it ranges from
  \<^verbatim>\<open>Timestamp.min\<close>, 1677-09-21 00:12:43.145224193, to \<^verbatim>\<open>Timestamp.max\<close>,
  2262-04-11 23:47:16.854775807; making one outside that range raises
  \<^verbatim>\<open>OutOfBoundsDatetime\<close>.
\<close>

type_synonym timestamp = "date \<times> nat"

definition ts_le :: "timestamp \<Rightarrow> timestamp \<Rightarrow> bool" where
  "ts_le a b = (date_less (fst a) (fst b) \<or> (fst a = fst b \<and> snd a \<le> snd b))"

definition Timestamp_min :: timestamp where
  "Timestamp_min = (\<lparr>year = 1677, month = 9, day = 21\<rparr>, 763145224193)"

definition Timestamp_max :: timestamp where
  "Timestamp_max = (\<lparr>year = 2262, month = 4, day = 11\<rparr>, 85636854775807)"

definition in_bounds :: "timestamp \<Rightarrow> bool" where
  "in_bounds t = (ts_le Timestamp_min t \<and> ts_le t Timestamp_max)"

text \<open>Comparing two \<^verbatim>\<open>np.datetime64\<close> values: false when either is \<^verbatim>\<open>NaT\<close>.\<close>

fun dt_le :: "datetime64 \<Rightarrow> datetime64 \<Rightarrow> bool" where
  "dt_le (Stamp d t) (Stamp d' t') = ts_le (d, t) (d', t')"
| "dt_le NaT b = False"
| "dt_le (Stamp d t) NaT = False"

text \<open>
  Months are counted by their index \<open>12 * year + (month - 1)\<close>. The offset
  \<^verbatim>\<open>MonthEnd\<close> of the frequency \<^verbatim>\<open>"M"\<close> moves a timestamp to a last day of a month
  and keeps its time of day: \<open>rollforward\<close> to the end of its own month, \<open>rollback\<close>
  and \<open>minus_MonthEnd\<close> to the end of the month before, \<open>plus_MonthEnd\<close>, for a
  timestamp on a month end, to the end of the next month.
\<close>

definition month_index :: "date \<Rightarrow> nat" where
  "month_index d = 12 * nat (year d) + (month d - 1)"

definition month_end_of_index :: "nat \<Rightarrow> date" where
  "month_end_of_index k =
     \<lparr>year = int (k div 12), month = k mod 12 + 1,
      day = days_in_month (int (k div 12)) (k mod 12 + 1)\<rparr>"

definition rollforward :: "timestamp \<Rightarrow> timestamp" where
  "rollforward t = (month_end_of_index (month_index (fst t)), snd t)"

definition minus_MonthEnd :: "timestamp \<Rightarrow> timestamp" where
  "minus_MonthEnd t = (month_end_of_index (month_index (fst t) - 1), snd t)"

definition rollback :: "timestamp \<Rightarrow> timestamp" where
  "rollback t = minus_MonthEnd t"

definition plus_MonthEnd :: "timestamp \<Rightarrow> timestamp" where
  "plus_MonthEnd t = (month_end_of_index (Suc (month_index (fst t))), snd t)"

text \<open>
  The loop of pandas' \<^verbatim>\<open>_generate_range\<close>: yield \<open>cur\<close> while it does not pass the
  end; stop without stepping when it is the end; otherwise step by one month end, which
  raises when the next timestamp is past \<^verbatim>\<open>Timestamp.max\<close>.
\<close>

function generate_range :: "timestamp \<Rightarrow> timestamp \<Rightarrow> error + timestamp list" where
  "generate_range cur e =
     (if ts_le cur e then
        (if cur = e then Inr [cur]
         else (let next_date = plus_MonthEnd cur
               in if \<not> ts_le next_date Timestamp_max then Inl OutOfBoundsDatetime
                  else (case generate_range next_date e of
                          Inl err \<Rightarrow> Inl err
                        | Inr rest \<Rightarrow> Inr (cur # rest))))
      else Inr [])"
  by pat_completeness auto
termination
proof (relation "measure (\<lambda>(cur, e). 27156 - month_index (fst cur))")
  show "wf (measure (\<lambda>(cur, e). 27156 - month_index (fst cur)))" by simp
next
  fix cur e :: timestamp and next_date :: timestamp
  assume n: "next_date = plus_MonthEnd cur" and b: "\<not> \<not> ts_le next_date Timestamp_max"
  let ?k = "Suc (month_index (fst cur))"
  have rt: "month_index (month_end_of_index j) = j" for j
    by (simp add: month_index_def month_end_of_index_def)
  have idx: "month_index (fst next_date) = ?k"
    by (simp add: n plus_MonthEnd_def rt)
  from b have "year (fst next_date) \<le> 2262"
    by (auto simp: ts_le_def date_less_def date_le_def Timestamp_max_def)
  then have "int (?k div 12) \<le> 2262"
    by (simp add: n plus_MonthEnd_def month_end_of_index_def)
  then have "?k div 12 < 2263" by linarith
  then have "?k < 2263 * 12" by (simp only: div_less_iff_less_mult zero_less_numeral)
  then show "((next_date, e), (cur, e)) \<in> measure (\<lambda>(cur, e). 27156 - month_index (fst cur))"
    using idx by simp
qed

declare generate_range.simps [simp del]

text \<open>
  \<^verbatim>\<open>pd.date_range(start=..., end=..., freq="M")\<close>. Neither end may be \<^verbatim>\<open>NaT\<close> and
  both must be in the range of \<^verbatim>\<open>Timestamp\<close>. A start that is not on a month end is
  rolled forward; otherwise an end that is not on one is rolled back. When the end is then
  before the start, pandas replaces it by the start minus one month end and the loop yields
  nothing.
\<close>

definition date_range_M :: "datetime64 \<Rightarrow> datetime64 \<Rightarrow> error + timestamp list" where
  "date_range_M start_arg end_arg =
     (case (start_arg, end_arg) of
        (NaT, _) \<Rightarrow> Inl (ValueError ''Neither `start` nor `end` can be NaT'')
      | (Stamp ds ts, NaT) \<Rightarrow> Inl (ValueError ''Neither `start` nor `end` can be NaT'')
      | (Stamp ds ts, Stamp de te) \<Rightarrow>
          (if \<not> in_bounds (ds, ts) \<or> \<not> in_bounds (de, te) then Inl OutOfBoundsDatetime
           else
             (let rolled =
                (if \<not> is_month_end ds then
                   (if \<not> ts_le (rollforward (ds, ts)) Timestamp_max then Inl OutOfBoundsDatetime
                    else Inr (rollforward (ds, ts), (de, te)))
                 else if \<not> is_month_end de then
                   (if \<not> ts_le Timestamp_min (rollback (de, te)) then Inl OutOfBoundsDatetime
                    else Inr ((ds, ts), rollback (de, te)))
                 else Inr ((ds, ts), (de, te)))
              in case rolled of
                   Inl err \<Rightarrow> Inl err
                 | Inr (s, e) \<Rightarrow>
                     (if \<not> ts_le s e then
                        (if \<not> ts_le Timestamp_min (minus_MonthEnd s) then Inl OutOfBoundsDatetime
                         else Inr [])
                      else generate_range s e))))"

text \<open>Python's \<^verbatim>\<open>str\<close> of a non-negative integer: its decimal digits, no padding.\<close>

definition digit_char :: "nat \<Rightarrow> char" where
  "digit_char n = ''0123456789'' ! n"

function str_nat :: "nat \<Rightarrow> string" where
  "str_nat n = (if n < 10 then [digit_char n] else str_nat (n div 10) @ [digit_char (n mod 10)])"
  by pat_completeness auto
termination
  by (relation "measure (\<lambda>n. n)") auto

declare str_nat.simps [simp del]

text \<open>
  \<^verbatim>\<open>time_bounds_to_year_month\<close> of \<^verbatim>\<open>utils.py\<close>. The years of the timestamps that
  \<^verbatim>\<open>date_range\<close> returns are positive.
\<close>

definition time_bounds_to_year_month :: "TimeBounds \<Rightarrow> error + (string \<times> string) list" where
  "time_bounds_to_year_month time_bounds =
     (case date_range_M (tb_start time_bounds) (tb_end time_bounds) of
        Inl err \<Rightarrow> Inl err
      | Inr date_range \<Rightarrow>
          Inr (map (\<lambda>date. (str_nat (nat (year (fst date))), str_nat (month (fst date))))
                 date_range))"

section \<open>The file system and the remote archive\<close>

type_synonym path = string

text \<open>
  Modelled from the spec: the declaration of \<open>SpatialBounds\<close> (module
  \<^verbatim>\<open>dataset_protocol\<close>) is not among the source files. The data model gives its
  fields in the order north, east, south, west, which is also the order in which
  \<^verbatim>\<open>SpatialBounds(90, 180, -90, -180)\<close> of the ERA5 class makes sense; the positional
  constructor call \<^verbatim>\<open>SpatialBounds(a, b, c, d)\<close> is \<open>SpatialBounds_init a b c d\<close>.
\<close>

record SpatialBounds =
  north :: real
  east :: real
  south :: real
  west :: real

definition SpatialBounds_init :: "real \<Rightarrow> real \<Rightarrow> real \<Rightarrow> real \<Rightarrow> SpatialBounds" where
  "SpatialBounds_init a b c d = \<lparr>north = a, east = b, south = c, west = d\<rparr>"

text \<open>
  The request handed to \<^verbatim>\<open>c.retrieve\<close> is a dictionary literal: an association list
  in the source's key order, whose values are strings, lists of strings or lists of
  numbers.
\<close>

datatype jvalue = Str string | StrList "string list" | NumList "real list"

type_synonym request = "(string \<times> jvalue) list"

text \<open>
  The calls that reach the remote archive are recorded in order:
  \<^verbatim>\<open>c.retrieve(dataset, request)\<close> and \<^verbatim>\<open>r.download(fpath)\<close>.
\<close>

datatype event = Retrieve string request | Download path

text \<open>
  The handle \<^verbatim>\<open>r\<close> that \<^verbatim>\<open>c.retrieve\<close> returns: the size the server reports, and
  what \<^verbatim>\<open>r.download\<close> does when it is called, either a failure or the bytes it writes.
\<close>

record Result =
  content_length :: nat
  download_result :: "error + string"

record Client =
  url :: string
  key :: string

text \<open>
  The archive is a parameter: given the client, the calls made so far, the dataset
  name and the request, it fails or answers with a handle.
\<close>

type_synonym server = "Client \<Rightarrow> event list \<Rightarrow> string \<Rightarrow> request \<Rightarrow> error + Result"

text \<open>
  Modelled from the spec: the properties record that \<^verbatim>\<open>write_properties_file\<close>
  (module \<^verbatim>\<open>dataset_protocol\<close>, not among the source files) persists: spatial
  bounds, time bounds and the list of requested variable names.
\<close>

record DownloadProperties =
  prop_spatial_bounds :: SpatialBounds
  prop_time_bounds :: TimeBounds
  prop_variable_names :: "string list"

text \<open>
  The state outside the program: the contents of the files, the directories, the
  properties records written, and the calls made to the archive.
\<close>

record world =
  files :: "path \<rightharpoonup> string"
  dirs :: "path set"
  properties :: "path \<rightharpoonup> DownloadProperties"
  calls :: "event list"

definition path_join :: "path \<Rightarrow> string \<Rightarrow> path" where
  "path_join p name = p @ ''/'' @ name"

text \<open>\<^verbatim>\<open>get_file_size\<close> of \<^verbatim>\<open>utils.py\<close>: 0 when the path does not exist.\<close>

definition get_file_size :: "world \<Rightarrow> path \<Rightarrow> nat" where
  "get_file_size w fpath = (case files w fpath of None \<Rightarrow> 0 | Some c \<Rightarrow> length c)"

section \<open>The configuration file\<close>

definition PRODUCT_FNAME :: "(string \<times> string) list" where
  "PRODUCT_FNAME =
     [(''reanalysis-era5-single-levels'', ''era5''),
      (''reanalysis-era5-land'', ''era5-land'')]"

definition CDSAPI_CONFIG_PATH :: path where
  "CDSAPI_CONFIG_PATH = ''~/.cdsapirc''"

definition newline :: char where
  "newline = CHR 0x0A"

text \<open>\<^verbatim>\<open>f.readline()\<close>: the next line with its newline, and the rest of the file.\<close>

definition readline :: "string \<Rightarrow> string \<times> string" where
  "readline s =
     (case dropWhile (\<lambda>c. c \<noteq> newline) s of
        [] \<Rightarrow> (s, [])
      | nl # rest \<Rightarrow> (takeWhile (\<lambda>c. c \<noteq> newline) s @ [nl], rest))"

text \<open>\<^verbatim>\<open>s.split(":", 1)[1]\<close>: what follows the first colon; IndexError without one.\<close>

definition after_colon :: "string \<Rightarrow> error + string" where
  "after_colon s =
     (case dropWhile (\<lambda>c. c \<noteq> CHR '':'') s of
        [] \<Rightarrow> Inl IndexError
      | c # rest \<Rightarrow> Inr rest)"

definition is_space :: "char \<Rightarrow> bool" where
  "is_space c =
     (c = CHR '' '' \<or> c = CHR 0x09 \<or> c = CHR 0x0A \<or> c = CHR 0x0B \<or> c = CHR 0x0C
      \<or> c = CHR 0x0D \<or> c = CHR 0x1C \<or> c = CHR 0x1D \<or> c = CHR 0x1E \<or> c = CHR 0x1F)"

definition strip :: "string \<Rightarrow> string" where
  "strip s = rev (dropWhile is_space (rev (dropWhile is_space s)))"

text \<open>
  The first lines of \<^verbatim>\<open>cds_request\<close>: open the configuration file, read the URL
  from its first line and the key from its second, and build the client.
\<close>

definition read_config :: "world \<Rightarrow> error + Client" where
  "read_config w =
     (case files w CDSAPI_CONFIG_PATH of
        None \<Rightarrow> Inl (FileNotFoundError CDSAPI_CONFIG_PATH)
      | Some f \<Rightarrow>
          (let (l1, f1) = readline f in
           case after_colon l1 of
             Inl e \<Rightarrow> Inl e
           | Inr u \<Rightarrow>
               (let (l2, f2) = readline f1 in
                case after_colon l2 of
                  Inl e \<Rightarrow> Inl e
                | Inr k \<Rightarrow> Inr \<lparr>url = strip u, key = strip k\<rparr>)))"

section \<open>The retrieval loop\<close>

definition all_days :: "string list" where
  "all_days =
     [''01'', ''02'', ''03'', ''04'', ''05'', ''06'', ''07'', ''08'', ''09'', ''10'',
      ''11'', ''12'', ''13'', ''14'', ''15'', ''16'', ''17'', ''18'', ''19'', ''20'',
      ''21'', ''22'', ''23'', ''24'', ''25'', ''26'', ''27'', ''28'', ''29'', ''30'',
      ''31'']"

definition all_hours :: "string list" where
  "all_hours =
     [''00:00'', ''01:00'', ''02:00'', ''03:00'', ''04:00'', ''05:00'', ''06:00'',
      ''07:00'', ''08:00'', ''09:00'', ''10:00'', ''11:00'', ''12:00'', ''13:00'',
      ''14:00'', ''15:00'', ''16:00'', ''17:00'', ''18:00'', ''19:00'', ''20:00'',
      ''21:00'', ''22:00'', ''23:00'']"

text \<open>The dictionary literal of the call to \<^verbatim>\<open>c.retrieve\<close>.\<close>

definition mk_request :: "string \<Rightarrow> string \<Rightarrow> string \<Rightarrow> SpatialBounds \<Rightarrow> request" where
  "mk_request cds_var y m spatial_bounds =
     [(''product_type'', Str ''reanalysis''),
      (''variable'', StrList [cds_var]),
      (''year'', Str y),
      (''month'', Str m),
      (''day'', StrList all_days),
      (''time'', StrList all_hours),
      (''area'', NumList [north spatial_bounds, west spatial_bounds,
                          south spatial_bounds, east spatial_bounds]),
      (''format'', Str ''netcdf'')]"

text \<open>
  The body of the loop of \<^verbatim>\<open>cds_request\<close> for one item
  \<^verbatim>\<open>((year, month), variable)\<close>. The dictionary literal is evaluated before the call,
  so a variable missing from \<^verbatim>\<open>cds_var_names\<close> raises before anything is requested. The
  messages printed to the terminal are not modelled.
\<close>

definition cds_item ::
  "server \<Rightarrow> Client \<Rightarrow> string \<Rightarrow> string \<Rightarrow> SpatialBounds \<Rightarrow> path \<Rightarrow> (string \<rightharpoonup> string) \<Rightarrow> bool
     \<Rightarrow> (string \<times> string) \<times> string \<Rightarrow> world \<Rightarrow> (error + unit) \<times> world" where
  "cds_item srv c dataset fname spatial_bounds pth cds_var_names overwrite item w =
     (case item of ((y, m), variable) \<Rightarrow>
        (case cds_var_names variable of
           None \<Rightarrow> (Inl (KeyError variable), w)
         | Some cds_var \<Rightarrow>
             (let request = mk_request cds_var y m spatial_bounds;
                  w1 = w\<lparr>calls := calls w @ [Retrieve dataset request]\<rparr>
              in case srv c (calls w) dataset request of
                   Inl e \<Rightarrow> (Inl e, w1)
                 | Inr r \<Rightarrow>
                     (let fpath = path_join pth
                            (fname @ ''_'' @ variable @ ''_'' @ y @ ''-'' @ m @ ''.nc'')
                      in if get_file_size w1 fpath \<noteq> content_length r \<or> overwrite
                         then (let w2 = w1\<lparr>calls := calls w1 @ [Download fpath]\<rparr>
                               in case download_result r of
                                    Inl e \<Rightarrow> (Inl e, w2)
                                  | Inr data \<Rightarrow> (Inr (), w2\<lparr>files := (files w2)(fpath \<mapsto> data)\<rparr>))
                         else (Inr (), w1)))))"

text \<open>A \<^verbatim>\<open>for\<close> loop whose body may raise: the first exception ends the loop.\<close>

fun for_each :: "('a \<Rightarrow> 's \<Rightarrow> (error + unit) \<times> 's) \<Rightarrow> 'a list \<Rightarrow> 's \<Rightarrow> (error + unit) \<times> 's" where
  "for_each body [] s = (Inr (), s)"
| "for_each body (x # xs) s =
     (case body x s of
        (Inl e, s') \<Rightarrow> (Inl e, s')
      | (Inr u, s') \<Rightarrow> for_each body xs s')"

text \<open>
  \<^verbatim>\<open>cds_request\<close> of \<^verbatim>\<open>utils.py\<close>. \<^verbatim>\<open>product(year_month_pairs, variables)\<close> runs
  over the pairs in the outer position and the variables in the inner one.
\<close>

definition cds_request ::
  "server \<Rightarrow> string \<Rightarrow> string list \<Rightarrow> TimeBounds \<Rightarrow> SpatialBounds \<Rightarrow> path
     \<Rightarrow> (string \<rightharpoonup> string) \<Rightarrow> bool \<Rightarrow> world \<Rightarrow> (error + unit) \<times> world" where
  "cds_request srv dataset variables time_bounds spatial_bounds pth cds_var_names overwrite w =
     (case map_of PRODUCT_FNAME dataset of
        None \<Rightarrow> (Inl (KeyError dataset), w)
      | Some fname \<Rightarrow>
          (case read_config w of
             Inl e \<Rightarrow> (Inl e, w)
           | Inr c \<Rightarrow>
               (case time_bounds_to_year_month time_bounds of
                  Inl e \<Rightarrow> (Inl e, w)
                | Inr year_month_pairs \<Rightarrow>
                    for_each
                      (cds_item srv c dataset fname spatial_bounds pth cds_var_names overwrite)
                      (List.product year_month_pairs variables) w)))"

text \<open>The calls made between two states, and the requests among them.\<close>

definition issued :: "world \<Rightarrow> world \<Rightarrow> event list" where
  "issued w w' = drop (length (calls w)) (calls w')"

fun retrievals :: "event list \<Rightarrow> (string \<times> request) list" where
  "retrievals [] = []"
| "retrievals (Retrieve d r # es) = (d, r) # retrievals es"
| "retrievals (Download p # es) = retrievals es"

fun downloads :: "event list \<Rightarrow> path list" where
  "downloads [] = []"
| "downloads (Retrieve d r # es) = downloads es"
| "downloads (Download p # es) = p # downloads es"

section \<open>The ERA5 dataset and its download\<close>

text \<open>
  The attributes of the class \<^verbatim>\<open>ERA5\<close> of \<^verbatim>\<open>era5.py\<close> that \<^verbatim>\<open>download\<close> and the
  validation read (the prefix \<open>ds_\<close> keeps the field names apart from the arguments
  of the same names).
\<close>

record Dataset =
  ds_name :: string
  ds_time_bounds :: TimeBounds
  ds_spatial_bounds :: SpatialBounds
  ds_variable_names :: "string list"

definition ERA5 :: Dataset where
  "ERA5 =
     \<lparr>ds_name = ''era5'',
      ds_time_bounds =
        \<lparr>tb_start = Stamp \<lparr>year = 1940, month = 1, day = 1\<rparr> 0,
         tb_end = Stamp \<lparr>year = 2023, month = 6, day = 30\<rparr> 0\<rparr>,
      ds_spatial_bounds = SpatialBounds_init 90 180 (- 90) (- 180),
      ds_variable_names =
        [''mean_total_precipitation_rate'',
         ''surface_thermal_radiation_downwards'',
         ''surface_solar_radiation_downwards'',
         ''surface_pressure'',
         ''10m_u_component_of_wind'',
         ''10m_v_component_of_wind'']\<rparr>"

text \<open>
  Modelled from the spec: \<^verbatim>\<open>validation.validate_download_request\<close> is not among the
  source files. The spec has it check that the requested bounds lie within the
  dataset's declared spatial and temporal extent and that the variable names are
  recognized, and raise a validation error otherwise.
\<close>

definition variables_recognized :: "Dataset \<Rightarrow> string list \<Rightarrow> bool" where
  "variables_recognized dataset variable_names =
     list_all (\<lambda>v. v \<in> set (ds_variable_names dataset)) variable_names"

definition time_within :: "Dataset \<Rightarrow> TimeBounds \<Rightarrow> bool" where
  "time_within dataset tb =
     (dt_le (tb_start (ds_time_bounds dataset)) (tb_start tb)
      \<and> dt_le (tb_end tb) (tb_end (ds_time_bounds dataset)))"

definition space_within :: "Dataset \<Rightarrow> SpatialBounds \<Rightarrow> bool" where
  "space_within dataset sb =
     (north sb \<le> north (ds_spatial_bounds dataset)
      \<and> south (ds_spatial_bounds dataset) \<le> south sb
      \<and> east sb \<le> east (ds_spatial_bounds dataset)
      \<and> west (ds_spatial_bounds dataset) \<le> west sb)"

definition within_envelope :: "Dataset \<Rightarrow> TimeBounds \<Rightarrow> SpatialBounds \<Rightarrow> string list \<Rightarrow> bool" where
  "within_envelope dataset tb sb variable_names =
     (variables_recognized dataset variable_names \<and> time_within dataset tb
      \<and> space_within dataset sb)"

definition validate_download_request ::
  "Dataset \<Rightarrow> path \<Rightarrow> TimeBounds \<Rightarrow> SpatialBounds \<Rightarrow> string list \<Rightarrow> error + unit" where
  "validate_download_request dataset download_dir tb sb variable_names =
     (if \<not> variables_recognized dataset variable_names
        then Inl (ValidationError ''variable names'')
      else if \<not> time_within dataset tb
        then Inl (ValidationError ''time bounds'')
      else if \<not> space_within dataset sb
        then Inl (ValidationError ''spatial bounds'')
      else Inr ())"

text \<open>
  \<^verbatim>\<open>download_folder.mkdir(parents=True, exist_ok=True)\<close>: no error when the directory
  exists already, FileExistsError when the path is a file. The parents created on the
  way are not tracked.
\<close>

definition mkdir :: "path \<Rightarrow> world \<Rightarrow> (error + unit) \<times> world" where
  "mkdir p w =
     (if files w p \<noteq> None then (Inl (FileExistsError p), w)
      else (Inr (), w\<lparr>dirs := insert p (dirs w)\<rparr>))"

text \<open>
  Modelled from the spec: \<^verbatim>\<open>write_properties_file\<close> is not among the source files.
  It persists the properties record in the download folder.
\<close>

definition write_properties_file ::
  "path \<Rightarrow> SpatialBounds \<Rightarrow> TimeBounds \<Rightarrow> string list \<Rightarrow> world \<Rightarrow> world" where
  "write_properties_file folder sb tb variable_names w =
     w\<lparr>properties := (properties w)(path_join folder ''properties.json'' \<mapsto>
          \<lparr>prop_spatial_bounds = sb, prop_time_bounds = tb,
           prop_variable_names = variable_names\<rparr>)\<rparr>"

text \<open>
  A call of \<^verbatim>\<open>cds_request\<close> with keyword arguments. Python binds the keywords to
  the parameters before the body runs: a keyword that names no parameter raises
  TypeError, and so does a parameter that gets no value (\<^verbatim>\<open>cds_request\<close> declares no
  defaults). The argument values are tagged with their types.
\<close>

datatype arg =
    AStr string
  | AStrList "string list"
  | ATimeBounds TimeBounds
  | ASpatialBounds SpatialBounds
  | ADict "string \<rightharpoonup> string"
  | ABool bool

definition cds_request_params :: "string list" where
  "cds_request_params =
     [''dataset'', ''variables'', ''time_bounds'', ''spatial_bounds'', ''path'',
      ''cds_var_names'', ''overwrite'']"

definition bind_keywords :: "string list \<Rightarrow> (string \<times> arg) list \<Rightarrow> error option" where
  "bind_keywords params kwargs =
     (case filter (\<lambda>k. k \<notin> set params) (map fst kwargs) of
        k # ks \<Rightarrow> Some (TypeError (''unexpected keyword argument '' @ k))
      | [] \<Rightarrow>
          (case filter (\<lambda>p. p \<notin> set (map fst kwargs)) params of
             p # ps \<Rightarrow> Some (TypeError (''missing required argument '' @ p))
           | [] \<Rightarrow> None))"

definition call_cds_request ::
  "server \<Rightarrow> (string \<times> arg) list \<Rightarrow> world \<Rightarrow> (error + unit) \<times> world" where
  "call_cds_request srv kwargs w =
     (case bind_keywords cds_request_params kwargs of
        Some e \<Rightarrow> (Inl e, w)
      | None \<Rightarrow>
          (case (map_of kwargs ''dataset'', map_of kwargs ''variables'') of
             (Some (AStr dataset), Some (AStrList variables)) \<Rightarrow>
               (case (map_of kwargs ''time_bounds'', map_of kwargs ''spatial_bounds'') of
                  (Some (ATimeBounds tb), Some (ASpatialBounds sb)) \<Rightarrow>
                    (case (map_of kwargs ''path'', map_of kwargs ''cds_var_names'') of
                       (Some (AStr pth), Some (ADict cds_var_names)) \<Rightarrow>
                         (case map_of kwargs ''overwrite'' of
                            Some (ABool overwrite) \<Rightarrow>
                              cds_request srv dataset variables tb sb pth cds_var_names overwrite w
                          | _ \<Rightarrow> (Inl (TypeError ''overwrite''), w))
                     | _ \<Rightarrow> (Inl (TypeError ''path, cds_var_names''), w))
                | _ \<Rightarrow> (Inl (TypeError ''time_bounds, spatial_bounds''), w))
           | _ \<Rightarrow> (Inl (TypeError ''dataset, variables''), w)))"

text \<open>
  \<^verbatim>\<open>ERA5.download\<close> of \<^verbatim>\<open>era5.py\<close>: validate, create the folder, call
  \<^verbatim>\<open>utils.cds_request\<close> with the keywords the source writes, write the properties
  file, return True.
\<close>

definition ERA5_download ::
  "server \<Rightarrow> path \<Rightarrow> TimeBounds \<Rightarrow> SpatialBounds \<Rightarrow> string list \<Rightarrow> bool \<Rightarrow> world
     \<Rightarrow> (error + bool) \<times> world" where
  "ERA5_download srv download_dir time_bounds spatial_bounds variable_names overwrite w =
     (case validate_download_request ERA5 download_dir time_bounds spatial_bounds variable_names of
        Inl e \<Rightarrow> (Inl e, w)
      | Inr u \<Rightarrow>
          (let download_folder = path_join download_dir (ds_name ERA5)
           in case mkdir download_folder w of
                (Inl e, w1) \<Rightarrow> (Inl e, w1)
              | (Inr u1, w1) \<Rightarrow>
                  (case call_cds_request srv
                          [(''product'', AStr ''reanalysis-era5-single-levels''),
                           (''variables'', AStrList variable_names),
                           (''time_bounds'', ATimeBounds time_bounds),
                           (''spatial_bounds'', ASpatialBounds spatial_bounds),
                           (''path'', AStr download_folder),
                           (''overwrite'', ABool overwrite)] w1 of
                     (Inl e, w2) \<Rightarrow> (Inl e, w2)
                   | (Inr u2, w2) \<Rightarrow>
                       (Inr True,
                        write_properties_file download_folder spatial_bounds time_bounds
                          variable_names w2))))"

text \<open>
  The steps of \<^verbatim>\<open>download\<close> over any dataset and with the retrieval step left open: a
  function of the download folder that changes the outside world and may raise.
  \<open>ERA5_download\<close> is the case of the ERA5 class and of the call of \<^verbatim>\<open>utils.cds_request\<close>
  that the source writes.
\<close>

definition download_with ::
  "Dataset \<Rightarrow> (path \<Rightarrow> world \<Rightarrow> (error + unit) \<times> world) \<Rightarrow> path \<Rightarrow> TimeBounds
     \<Rightarrow> SpatialBounds \<Rightarrow> string list \<Rightarrow> world \<Rightarrow> (error + bool) \<times> world" where
  "download_with dataset retrieve_step download_dir time_bounds spatial_bounds variable_names w =
     (case validate_download_request dataset download_dir time_bounds spatial_bounds
             variable_names of
        Inl e \<Rightarrow> (Inl e, w)
      | Inr u \<Rightarrow>
          (let download_folder = path_join download_dir (ds_name dataset)
           in case mkdir download_folder w of
                (Inl e, w1) \<Rightarrow> (Inl e, w1)
              | (Inr u1, w1) \<Rightarrow>
                  (case retrieve_step download_folder w1 of
                     (Inl e, w2) \<Rightarrow> (Inl e, w2)
                   | (Inr u2, w2) \<Rightarrow>
                       (Inr True,
                        write_properties_file download_folder spatial_bounds time_bounds
                          variable_names w2))))"

section \<open>Inputs of the test suite\<close>

text \<open>
  The inputs of \<^verbatim>\<open>test_download\<close>: the dummy configuration file, the time bounds,
  the bounding box and the variable; a server that answers every request with a
  file of \<open>n\<close> bytes.
\<close>

definition test_config :: string where
  "test_config = ''url: a'' @ [newline] @ ''key: 123:abc-def''"

definition test_world :: world where
  "test_world =
     \<lparr>files = [CDSAPI_CONFIG_PATH \<mapsto> test_config], dirs = {}, properties = Map.empty,
      calls = []\<rparr>"

definition test_server :: "nat \<Rightarrow> server" where
  "test_server n c evs d r =
     Inr \<lparr>content_length = n, download_result = Inr (replicate n (CHR ''x''))\<rparr>"

definition test_times :: TimeBounds where
  "test_times =
     \<lparr>tb_start = Stamp \<lparr>year = 2010, month = 1, day = 1\<rparr> 0,
      tb_end = Stamp \<lparr>year = 2010, month = 1, day = 31\<rparr> 0\<rparr>"

definition test_bbox :: SpatialBounds where
  "test_bbox = SpatialBounds_init 54 56 1 3"

definition test_names :: "string \<rightharpoonup> string" where
  "test_names = [''2m_dewpoint_temperature'' \<mapsto> ''2m_dewpoint_temperature'']"

text \<open>Two months, two variables and their codes, to watch the order of the requests.\<close>

definition test_two_months :: TimeBounds where
  "test_two_months =
     \<lparr>tb_start = Stamp \<lparr>year = 2010, month = 1, day = 1\<rparr> 0,
      tb_end = Stamp \<lparr>year = 2010, month = 2, day = 28\<rparr> 0\<rparr>"

definition test_two_names :: "string \<rightharpoonup> string" where
  "test_two_names =
     [''air_temperature'' \<mapsto> ''2m_temperature'',
      ''dewpoint_temperature'' \<mapsto> ''2m_dewpoint_temperature'']"

text \<open>
  A server that answers the first request with a file of three bytes and rejects every
  later one, and the code of an ERA5 variable.
\<close>

definition test_server_once :: server where
  "test_server_once c evs d q =
     (if evs = [] then Inr \<lparr>content_length = 3, download_result = Inr ''xxx''\<rparr>
      else Inl (RemoteError ''rejected''))"

definition test_era5_names :: "string \<rightharpoonup> string" where
  "test_era5_names = [''surface_pressure'' \<mapsto> ''surface_pressure'']"

text \<open>The world of the test once the download folder of the ERA5 class is made.\<close>

definition test_made :: world where
  "test_made = test_world\<lparr>dirs := {''download/era5''}\<rparr>"

section \<open>Datasets and the normalizer\<close>

text \<open>
  A variable of an xarray dataset: its values and its attributes, a dictionary kept as
  an association list in insertion order. A dataset is the dictionary of its variables,
  coordinates included, again in order. The values are of any type with a division and
  numerals.
\<close>

record 'a DataArray =
  vals :: "'a list"
  attrs :: "(string \<times> string) list"

type_synonym 'a dataset = "(string \<times> 'a DataArray) list"

definition var_reference_era5_to_zampy :: "(string \<times> string) list" where
  "var_reference_era5_to_zampy =
     [(''mtpr'', ''total_precipitation''),
      (''strd'', ''surface_thermal_radiation_downwards''),
      (''ssrd'', ''surface_solar_radiation_downwards''),
      (''sp'', ''surface_pressure''),
      (''u10'', ''eastward_component_of_wind''),
      (''v10'', ''northward_component_of_wind''),
      (''t2m'', ''air_temperature''),
      (''d2m'', ''dewpoint_temperature'')]"

definition WATER_DENSITY :: "'a::numeral" where
  "WATER_DENSITY = 997"

text \<open>
  An entry of \<^verbatim>\<open>VARIABLE_REFERENCE_LOOKUP\<close>: the unit, as the string \<^verbatim>\<open>str\<close> gives for
  it, and the description. The table itself (module \<^verbatim>\<open>zampy.reference.variables\<close>) is
  not among the source files and is a parameter of the normalizer.
\<close>

record Variable =
  var_unit :: string
  var_desc :: string

type_synonym variable_reference_lookup = "string \<rightharpoonup> Variable"

text \<open>
  \<^verbatim>\<open>ds.rename({old: new})\<close> returns a new dataset with the variable renamed in place;
  xarray raises ValueError when \<open>old\<close> is no variable of the dataset and when \<open>new\<close>
  names another one already.
\<close>

definition rename :: "'a dataset \<Rightarrow> string \<Rightarrow> string \<Rightarrow> error + 'a dataset" where
  "rename ds old new =
     (if old \<notin> set (map fst ds) then Inl (ValueError (''cannot rename '' @ old))
      else if new \<noteq> old \<and> new \<in> set (map fst ds)
        then Inl (ValueError (''the new name conflicts: '' @ new))
      else Inr (map (\<lambda>(k, x). (if k = old then new else k, x)) ds))"

text \<open>\<^verbatim>\<open>ds[name]\<close>, \<^verbatim>\<open>ds[name] = x\<close> and \<^verbatim>\<open>ds[name].attrs[k] = v\<close>.\<close>

definition getitem :: "'a dataset \<Rightarrow> string \<Rightarrow> error + 'a DataArray" where
  "getitem ds name = (case map_of ds name of None \<Rightarrow> Inl (KeyError name) | Some x \<Rightarrow> Inr x)"

definition setitem :: "'a dataset \<Rightarrow> string \<Rightarrow> 'a DataArray \<Rightarrow> 'a dataset" where
  "setitem ds name x = AList.update name x ds"

definition set_attr :: "'a dataset \<Rightarrow> string \<Rightarrow> string \<Rightarrow> string \<Rightarrow> error + 'a dataset" where
  "set_attr ds name k v =
     (case getitem ds name of
        Inl e \<Rightarrow> Inl e
      | Inr x \<Rightarrow> Inr (setitem ds name (x\<lparr>attrs := AList.update k v (attrs x)\<rparr>)))"

text \<open>
  \<^verbatim>\<open>x / c\<close> on an array divides every value; the result of xarray's arithmetic carries
  no attributes.
\<close>

definition div_array :: "'a::inverse DataArray \<Rightarrow> 'a \<Rightarrow> 'a DataArray" where
  "div_array x c = \<lparr>vals = map (\<lambda>v. v / c) (vals x), attrs = []\<rparr>"

text \<open>
  Modelled from the spec: \<^verbatim>\<open>converter._convert_var\<close> is not among the source files.
  The spec calls it a generic unit-conversion step that converts a variable to a target
  unit. The conversion of a value between two units is the parameter \<open>conv\<close>, undefined
  for units that do not convert; the variable's unit is read from its \<open>units\<close>
  attribute, its values are converted and the attribute is set to the new unit.
\<close>

type_synonym 'a unit_conversion = "string \<Rightarrow> string \<Rightarrow> ('a \<Rightarrow> 'a) option"

definition convert_var ::
  "'a unit_conversion \<Rightarrow> 'a dataset \<Rightarrow> string \<Rightarrow> string \<Rightarrow> error + 'a dataset" where
  "convert_var conv ds var new_unit =
     (case getitem ds var of
        Inl e \<Rightarrow> Inl e
      | Inr x \<Rightarrow>
          (case map_of (attrs x) ''units'' of
             None \<Rightarrow> Inl (KeyError ''units'')
           | Some old_unit \<Rightarrow>
               (case conv old_unit new_unit of
                  None \<Rightarrow> Inl (ValueError (''cannot convert to '' @ new_unit))
                | Some f \<Rightarrow>
                    Inr (setitem ds var
                      \<lparr>vals = map f (vals x),
                       attrs = AList.update ''units'' new_unit (attrs x)\<rparr>))))"

text \<open>
  The \<^verbatim>\<open>if\<close>/\<^verbatim>\<open>elif\<close> of the loop body of \<^verbatim>\<open>parse_nc_file\<close>: radiation is divided by
  3600; precipitation is divided by the density of water, marked as metres per second and
  converted to the unit of the reference table.
\<close>

definition rescale ::
  "variable_reference_lookup \<Rightarrow> 'a unit_conversion \<Rightarrow> string \<Rightarrow> 'a dataset
     \<Rightarrow> error + ('a::{inverse,numeral}) dataset" where
  "rescale lookup conv variable_name ds =
     (if variable_name = ''surface_solar_radiation_downwards''
         \<or> variable_name = ''surface_thermal_radiation_downwards''
      then (case getitem ds variable_name of
              Inl e \<Rightarrow> Inl e
            | Inr x \<Rightarrow> Inr (setitem ds variable_name (div_array x 3600)))
      else if variable_name = ''total_precipitation''
      then (case getitem ds variable_name of
              Inl e \<Rightarrow> Inl e
            | Inr x \<Rightarrow>
                (case set_attr (setitem ds variable_name (div_array x WATER_DENSITY))
                        variable_name ''units'' ''meter_per_second'' of
                   Inl e \<Rightarrow> Inl e
                 | Inr ds1 \<Rightarrow>
                     (case lookup variable_name of
                        None \<Rightarrow> Inl (KeyError variable_name)
                      | Some ref \<Rightarrow> convert_var conv ds1 variable_name (var_unit ref))))
      else Inr ds)"

text \<open>The body of the loop of \<^verbatim>\<open>parse_nc_file\<close> for one variable name.\<close>

definition parse_variable ::
  "variable_reference_lookup \<Rightarrow> 'a unit_conversion \<Rightarrow> string \<Rightarrow> 'a dataset
     \<Rightarrow> error + ('a::{inverse,numeral}) dataset" where
  "parse_variable lookup conv variable ds =
     (case map_of var_reference_era5_to_zampy variable of
        None \<Rightarrow> Inr ds
      | Some variable_name \<Rightarrow>
          (case rename ds variable variable_name of
             Inl e \<Rightarrow> Inl e
           | Inr ds1 \<Rightarrow>
               (case rescale lookup conv variable_name ds1 of
                  Inl e \<Rightarrow> Inl e
                | Inr ds2 \<Rightarrow>
                    (case lookup variable_name of
                       None \<Rightarrow> Inl (KeyError variable_name)
                     | Some ref \<Rightarrow>
                         (case set_attr ds2 variable_name ''units'' (var_unit ref) of
                            Inl e \<Rightarrow> Inl e
                          | Inr ds3 \<Rightarrow>
                              set_attr ds3 variable_name ''description'' (var_desc ref))))))"

fun parse_loop ::
  "variable_reference_lookup \<Rightarrow> 'a unit_conversion \<Rightarrow> string list \<Rightarrow> 'a dataset
     \<Rightarrow> error + ('a::{inverse,numeral}) dataset" where
  "parse_loop lookup conv [] ds = Inr ds"
| "parse_loop lookup conv (variable # rest) ds =
     (case parse_variable lookup conv variable ds of
        Inl e \<Rightarrow> Inl e
      | Inr ds' \<Rightarrow> parse_loop lookup conv rest ds')"

text \<open>
  \<^verbatim>\<open>parse_nc_file\<close> of \<^verbatim>\<open>utils.py\<close>, on the dataset read from the file. The loop runs
  over the names of the dataset as it was opened.
\<close>

definition parse_nc_file ::
  "variable_reference_lookup \<Rightarrow> 'a unit_conversion \<Rightarrow> 'a dataset
     \<Rightarrow> error + ('a::{inverse,numeral}) dataset" where
  "parse_nc_file lookup conv file = parse_loop lookup conv (map fst file) file"

text \<open>
  \<^verbatim>\<open>variable in var_reference_era5_to_zampy\<close>, and the frame of an update of the
  variable \<open>name\<close>: the names stay as they are, in their order, and so does every other
  variable.
\<close>

definition registered :: "string \<Rightarrow> bool" where
  "registered variable = (map_of var_reference_era5_to_zampy variable \<noteq> None)"

definition only_changes :: "string \<Rightarrow> 'a dataset \<Rightarrow> 'a dataset \<Rightarrow> bool" where
  "only_changes name ds ds' =
     (map fst ds' = map fst ds \<and> (\<forall>j. j \<noteq> name \<longrightarrow> map_of ds' j = map_of ds j))"

text \<open>A reference table, a unit conversion and a downloaded file to run the normalizer on.\<close>

definition test_lookup :: variable_reference_lookup where
  "test_lookup =
     [''total_precipitation'' \<mapsto>
        \<lparr>var_unit = ''millimeter / second'', var_desc = ''Total precipitation''\<rparr>,
      ''surface_solar_radiation_downwards'' \<mapsto>
        \<lparr>var_unit = ''watt / meter ** 2'', var_desc = ''Surface solar radiation''\<rparr>,
      ''surface_thermal_radiation_downwards'' \<mapsto>
        \<lparr>var_unit = ''watt / meter ** 2'', var_desc = ''Surface thermal radiation''\<rparr>]"

definition test_conv :: "real unit_conversion" where
  "test_conv old_unit new_unit =
     (if old_unit = new_unit then Some (\<lambda>v. v)
      else if old_unit = ''meter_per_second'' \<and> new_unit = ''millimeter / second''
        then Some (\<lambda>v. v * 1000)
      else None)"

definition test_file :: "real dataset" where
  "test_file =
     [(''time'', \<lparr>vals = [0, 1], attrs = [(''units'', ''hours'')]\<rparr>),
      (''ssrd'', \<lparr>vals = [7200, 0], attrs = [(''units'', ''J m**-2''), (''long_name'', ''ssrd'')]\<rparr>),
      (''mtpr'', \<lparr>vals = [1994, 997], attrs = [(''units'', ''kg m**-2 s**-1'')]\<rparr>)]"

text \<open>What the normalizer makes of that file.\<close>

definition test_file_normalized :: "real dataset" where
  "test_file_normalized =
     [(''time'', \<lparr>vals = [0, 1], attrs = [(''units'', ''hours'')]\<rparr>),
      (''surface_solar_radiation_downwards'',
       \<lparr>vals = [2, 0],
        attrs = [(''units'', ''watt / meter ** 2''),
                 (''description'', ''Surface solar radiation'')]\<rparr>),
      (''total_precipitation'',
       \<lparr>vals = [2000, 1000],
        attrs = [(''units'', ''millimeter / second''),
                 (''description'', ''Total precipitation'')]\<rparr>)]"

section \<open>Facts about dates and month ends\<close>

lemma days_in_month_pos: "1 \<le> days_in_month y m"
  by (simp add: days_in_month_def)

lemma date_eq_iff:
  fixes a b :: date
  shows "a = b \<longleftrightarrow> year a = year b \<and> month a = month b \<and> day a = day b"
  by (cases a, cases b) auto

lemma date_less_iff:
  "date_less a b \<longleftrightarrow>
     year a < year b \<or>
     (year a = year b \<and> (month a < month b \<or> (month a = month b \<and> day a < day b)))"
  unfolding date_less_def date_le_def date_eq_iff by auto

lemma date_le_iff: "date_le a b \<longleftrightarrow> date_less a b \<or> a = b"
  unfolding date_less_iff date_le_def date_eq_iff by auto

lemma date_less_irrefl: "\<not> date_less d d"
  by (simp add: date_less_def)

lemma date_less_trans: "date_less a b \<Longrightarrow> date_less b c \<Longrightarrow> date_less a c"
  unfolding date_less_iff by auto

lemma date_less_asym: "date_less a b \<Longrightarrow> \<not> date_less b a"
  unfolding date_less_iff by auto

lemma month_end_of_index_valid: "valid_date (month_end_of_index k)"
proof -
  have "k mod 12 < 12" by simp
  then have "k mod 12 + 1 \<le> 12" by arith
  then show ?thesis
    using days_in_month_pos [of "int (k div 12)" "k mod 12 + 1"]
    by (simp add: valid_date_def month_end_of_index_def)
qed

lemma month_end_of_index_is_end: "is_month_end (month_end_of_index k)"
  by (simp add: is_month_end_def month_end_of_index_def)

lemma month_index_month_end_of_index: "month_index (month_end_of_index k) = k"
  by (simp add: month_index_def month_end_of_index_def)

lemma year_month_of_index:
  assumes "valid_date d" and "0 \<le> year d"
  shows "int (month_index d div 12) = year d \<and> month_index d mod 12 + 1 = month d"
proof -
  from assms(1) have m: "1 \<le> month d" "month d \<le> 12" by (simp_all add: valid_date_def)
  obtain m' where m': "month d = Suc m'" using m(1) by (cases "month d") simp_all
  have "m' < 12" using m(2) m' by simp
  then have q: "(12 * nat (year d) + m') div 12 = nat (year d)"
    and r: "(12 * nat (year d) + m') mod 12 = m'"
    by simp_all
  show ?thesis using q r m' assms(2) by (simp add: month_index_def)
qed

lemma month_end_of_index_month_index:
  assumes "valid_date d" and "is_month_end d" and "0 \<le> year d"
  shows "month_end_of_index (month_index d) = d"
  using year_month_of_index [OF assms(1,3)] assms(2)
  by (simp add: month_end_of_index_def is_month_end_def date_eq_iff)

lemma div_mod_lex:
  fixes i j :: nat
  assumes "i < j"
  shows "i div 12 < j div 12 \<or> (i div 12 = j div 12 \<and> i mod 12 < j mod 12)"
proof -
  define qi ri qj rj where "qi = i div 12" and "ri = i mod 12" and "qj = j div 12" and "rj = j mod 12"
  have ei: "i = 12 * qi + ri" and ej: "j = 12 * qj + rj"
    unfolding qi_def ri_def qj_def rj_def by simp_all
  have bi: "ri < 12" and bj: "rj < 12" unfolding ri_def rj_def by simp_all
  have "qi < qj \<or> (qi = qj \<and> ri < rj)"
    using assms ei ej bi bj by linarith
  then show ?thesis unfolding qi_def ri_def qj_def rj_def .
qed

lemma month_end_of_index_strict:
  assumes "i < j"
  shows "date_less (month_end_of_index i) (month_end_of_index j)"
  using div_mod_lex [OF assms]
  by (simp add: date_less_iff month_end_of_index_def) blast

lemma month_end_of_index_le_iff:
  "date_le (month_end_of_index i) (month_end_of_index j) \<longleftrightarrow> i \<le> j"
proof
  assume a: "date_le (month_end_of_index i) (month_end_of_index j)"
  show "i \<le> j"
  proof (rule ccontr)
    assume "\<not> i \<le> j"
    then have "j < i" by simp
    then have s: "date_less (month_end_of_index j) (month_end_of_index i)"
      by (rule month_end_of_index_strict)
    from a have "date_less (month_end_of_index i) (month_end_of_index j)
        \<or> month_end_of_index i = month_end_of_index j"
      by (simp only: date_le_iff)
    then show False using s date_less_asym date_less_irrefl by metis
  qed
next
  assume "i \<le> j"
  then have "i < j \<or> i = j" by arith
  then show "date_le (month_end_of_index i) (month_end_of_index j)"
    using month_end_of_index_strict date_le_iff by blast
qed

text \<open>A month end against any date: decided by the two month indices.\<close>

lemma month_end_le_date_iff:
  assumes "valid_date d" and "0 \<le> year d"
  shows "date_le (month_end_of_index j) d \<longleftrightarrow>
           j < month_index d \<or> (j = month_index d \<and> is_month_end d)"
proof -
  let ?k = "month_index d"
  note ym = year_month_of_index [OF assms]
  from assms(1) have dd: "day d \<le> days_in_month (year d) (month d)" by (simp add: valid_date_def)
  consider (lt) "j < ?k" | (eq) "j = ?k" | (gt) "?k < j" by arith
  then show ?thesis
  proof cases
    case lt
    from div_mod_lex [OF lt] ym have "date_le (month_end_of_index j) d"
      by (auto simp: date_le_def month_end_of_index_def)
    with lt show ?thesis by simp
  next
    case eq
    have "date_le (month_end_of_index ?k) d \<longleftrightarrow> is_month_end d"
      using ym dd by (auto simp: date_le_def month_end_of_index_def is_month_end_def)
    with eq show ?thesis by simp
  next
    case gt
    from div_mod_lex [OF gt] ym have "\<not> date_le (month_end_of_index j) d"
      by (auto simp: date_le_def month_end_of_index_def)
    with gt show ?thesis by simp
  qed
qed

lemma date_le_month_end_iff:
  assumes "valid_date d" and "0 \<le> year d"
  shows "date_le d (month_end_of_index j) \<longleftrightarrow> month_index d \<le> j"
proof -
  let ?k = "month_index d"
  note ym = year_month_of_index [OF assms]
  from assms(1) have dd: "day d \<le> days_in_month (year d) (month d)" by (simp add: valid_date_def)
  consider (lt) "j < ?k" | (eq) "j = ?k" | (gt) "?k < j" by arith
  then show ?thesis
  proof cases
    case lt
    from div_mod_lex [OF lt] ym have "\<not> date_le d (month_end_of_index j)"
      by (auto simp: date_le_def month_end_of_index_def)
    with lt show ?thesis by simp
  next
    case eq
    have "date_le d (month_end_of_index ?k)"
      using ym dd by (auto simp: date_le_def month_end_of_index_def)
    with eq show ?thesis by simp
  next
    case gt
    from div_mod_lex [OF gt] ym have "date_le d (month_end_of_index j)"
      by (auto simp: date_le_def month_end_of_index_def)
    with gt show ?thesis by simp
  qed
qed

lemma sorted_month_ends: "sorted_wrt date_less (map month_end_of_index [a..<b])"
proof -
  have "sorted_wrt (\<lambda>i j. date_less (month_end_of_index i) (month_end_of_index j)) [a..<b]"
    by (rule sorted_wrt_mono_rel [OF _ sorted_wrt_upt]) (rule month_end_of_index_strict)
  then show ?thesis by (simp only: sorted_wrt_map)
qed

lemma distinct_month_ends: "distinct (map month_end_of_index [a..<b])"
proof -
  have "inj_on month_end_of_index (set [a..<b])"
    by (rule inj_on_inverseI [where g = month_index]) (rule month_index_month_end_of_index)
  then show ?thesis by (simp only: distinct_map distinct_upt simp_thms)
qed

text \<open>Timestamps at a month end, compared by date.\<close>

lemma ts_le_midnight: "ts_le (a, 0) (b, t) \<longleftrightarrow> date_le a b"
  by (simp add: ts_le_def date_le_iff)

lemma ts_le_year: "ts_le a b \<Longrightarrow> year (fst a) \<le> year (fst b)"
  by (auto simp: ts_le_def date_less_iff)

lemma ts_le_max_of_year:
  assumes "year (fst a) \<le> 2261"
  shows "ts_le a Timestamp_max"
  using assms by (simp add: ts_le_def date_less_iff Timestamp_max_def)

lemma ts_le_min_of_year:
  assumes "1678 \<le> year (fst a)"
  shows "ts_le Timestamp_min a"
  using assms by (simp add: ts_le_def date_less_iff Timestamp_min_def)

lemma plus_MonthEnd_month_end:
  "plus_MonthEnd (month_end_of_index k, t) = (month_end_of_index (Suc k), t)"
  by (simp add: plus_MonthEnd_def month_index_month_end_of_index)

lemma month_end_stamp_not_after:
  "\<not> ts_le (month_end_of_index (Suc k), t) (month_end_of_index k, t)"
proof -
  have s: "date_less (month_end_of_index k) (month_end_of_index (Suc k))"
    by (rule month_end_of_index_strict) simp
  then have "\<not> date_less (month_end_of_index (Suc k)) (month_end_of_index k)"
    by (rule date_less_asym)
  moreover have "month_end_of_index (Suc k) \<noteq> month_end_of_index k"
    using s date_less_irrefl by metis
  ultimately show ?thesis by (simp add: ts_le_def)
qed

lemma next_month_end_in_range:
  assumes "ts_le (month_end_of_index k, t) e" and "year (fst e) \<le> 2261"
  shows "ts_le (month_end_of_index (Suc k), t) Timestamp_max"
proof -
  from ts_le_year [OF assms(1)] assms(2) have "int (k div 12) \<le> 2261"
    by (simp add: month_end_of_index_def)
  then have "k div 12 < 2262" by linarith
  then have "k < 2262 * 12" by (simp only: div_less_iff_less_mult zero_less_numeral)
  then have "Suc k < 27144 \<or> Suc k = 27144" by arith
  then show ?thesis
  proof
    assume "Suc k < 27144"
    then have "Suc k < 2262 * 12" by simp
    then have "Suc k div 12 < 2262" by (simp only: div_less_iff_less_mult zero_less_numeral)
    then have "year (fst (month_end_of_index (Suc k), t)) \<le> 2261"
      by (simp add: month_end_of_index_def)
    then show ?thesis by (rule ts_le_max_of_year)
  next
    assume "Suc k = 27144"
    then show ?thesis
      by (simp add: ts_le_def date_less_iff Timestamp_max_def month_end_of_index_def)
  qed
qed

text \<open>
  The loop from a month end on: it yields the month ends, at the time of day it started
  with, up to the last one that does not pass the end.
\<close>

lemma generate_range_month_ends:
  assumes "year (fst e) \<le> 2261"
  shows "\<exists>n. k \<le> n
           \<and> generate_range (month_end_of_index k, t) e =
               Inr (map (\<lambda>j. (month_end_of_index j, t)) [k..<n])
           \<and> (\<forall>j. k \<le> j \<and> j < n \<longrightarrow> ts_le (month_end_of_index j, t) e)
           \<and> \<not> ts_le (month_end_of_index n, t) e"
proof (induction "27156 - k" arbitrary: k rule: less_induct)
  case less
  show ?case
  proof (cases "ts_le (month_end_of_index k, t) e")
    case False
    then have "generate_range (month_end_of_index k, t) e = Inr []"
      by (simp add: generate_range.simps)
    with False show ?thesis by (intro exI [of _ k]) auto
  next
    case True
    note nx = next_month_end_in_range [OF True assms]
    show ?thesis
    proof (cases "(month_end_of_index k, t) = e")
      case same: True
      have g: "generate_range (month_end_of_index k, t) e = Inr [(month_end_of_index k, t)]"
      proof -
        have "ts_le e e" using \<open>ts_le (month_end_of_index k, t) e\<close> same by simp
        then have "generate_range e e = Inr [e]"
          by (subst generate_range.simps) simp
        then show ?thesis using same by simp
      qed
      have n: "\<not> ts_le (month_end_of_index (Suc k), t) e"
        using month_end_stamp_not_after [of k t] same by simp
      have a: "\<forall>j. k \<le> j \<and> j < Suc k \<longrightarrow> ts_le (month_end_of_index j, t) e"
        using \<open>ts_le (month_end_of_index k, t) e\<close> by (auto simp: less_Suc_eq_le)
      show ?thesis
        by (rule exI [of _ "Suc k"]) (use g n a in \<open>simp add: upt_conv_Cons\<close>)
    next
      case diff: False
      from ts_le_year [OF True] assms have "int (k div 12) \<le> 2261"
        by (simp add: month_end_of_index_def)
      then have "k div 12 < 2262" by linarith
      then have "k < 2262 * 12" by (simp only: div_less_iff_less_mult zero_less_numeral)
      then have "27156 - Suc k < 27156 - k" by arith
      from less [OF this] obtain n where n: "Suc k \<le> n"
          "generate_range (month_end_of_index (Suc k), t) e =
             Inr (map (\<lambda>j. (month_end_of_index j, t)) [Suc k..<n])"
          "\<forall>j. Suc k \<le> j \<and> j < n \<longrightarrow> ts_le (month_end_of_index j, t) e"
          "\<not> ts_le (month_end_of_index n, t) e"
        by blast
      have g: "generate_range (month_end_of_index k, t) e =
          Inr ((month_end_of_index k, t) # map (\<lambda>j. (month_end_of_index j, t)) [Suc k..<n])"
        using True diff nx n(2)
        by (simp add: generate_range.simps [of "(month_end_of_index k, t)" e]
            plus_MonthEnd_month_end)
      have u: "[k..<n] = k # [Suc k..<n]" using n(1) by (simp add: upt_conv_Cons)
      have a: "\<forall>j. k \<le> j \<and> j < n \<longrightarrow> ts_le (month_end_of_index j, t) e"
      proof (intro allI impI)
        fix j assume "k \<le> j \<and> j < n"
        then have "j = k \<or> (Suc k \<le> j \<and> j < n)" by arith
        then show "ts_le (month_end_of_index j, t) e" using True n(3) by blast
      qed
      have kn: "k \<le> n" using n(1) by simp
      show ?thesis
        by (rule exI [of _ n]) (use kn g u a n(4) in simp)
    qed
  qed
qed

lemma month_index_lower:
  assumes "1678 \<le> year d"
  shows "20136 \<le> month_index d"
proof -
  from assms have "1678 \<le> nat (year d)" by linarith
  then show ?thesis by (simp add: month_index_def)
qed

lemma prev_month_end_in_range:
  assumes "20136 \<le> i"
  shows "ts_le Timestamp_min (month_end_of_index (i - 1), t)"
proof -
  from assms have "i - 1 = 20135 \<or> 20136 \<le> i - 1" by arith
  then show ?thesis
  proof
    assume "i - 1 = 20135"
    then show ?thesis
      by (simp add: ts_le_def date_less_iff Timestamp_min_def month_end_of_index_def)
  next
    assume "20136 \<le> i - 1"
    then have "1678 * 12 \<le> i - 1" by simp
    then have "1678 \<le> (i - 1) div 12" by (simp only: less_eq_div_iff_mult_less_eq zero_less_numeral)
    then have "1678 \<le> year (fst (month_end_of_index (i - 1), t))"
      by (simp add: month_end_of_index_def)
    then show ?thesis by (rule ts_le_min_of_year)
  qed
qed

lemma generate_range_not_started:
  "\<not> ts_le s e \<Longrightarrow> generate_range s e = Inr []"
  by (subst generate_range.simps) simp

text \<open>
  \<open>date_range_M\<close> from a start at midnight, in years where no timestamp it makes
  leaves the range of \<open>Timestamp\<close>: the month ends from the start's month up to the last
  one that is not after the end's date.
\<close>

lemma date_range_M_midnight:
  assumes "valid_date ds" and "valid_date de"
    and "1678 \<le> year ds" and "year ds \<le> 2261"
    and "1678 \<le> year de" and "year de \<le> 2261"
  shows "\<exists>n. month_index ds \<le> n
           \<and> date_range_M (Stamp ds 0) (Stamp de te) =
               Inr (map (\<lambda>j. (month_end_of_index j, 0)) [month_index ds..<n])
           \<and> (\<forall>j. month_index ds \<le> j \<longrightarrow> (j < n \<longleftrightarrow> date_le (month_end_of_index j) de))"
proof -
  let ?k = "month_index ds"
  let ?s = "(month_end_of_index ?k, 0 :: nat)"
  have ps: "0 \<le> year ds" and pe: "0 \<le> year de" using assms(3,5) by simp_all
  have ib: "in_bounds (ds, 0)" "in_bounds (de, te)"
    using assms(3-6) by (simp_all add: in_bounds_def ts_le_min_of_year ts_le_max_of_year)
  have ks: "20136 \<le> ?k" using assms(3) by (rule month_index_lower)
  have ke: "20136 \<le> month_index de" using assms(5) by (rule month_index_lower)
  have rf: "rollforward (ds, 0) = ?s" by (simp add: rollforward_def)
  have ys: "year (fst ?s) \<le> 2261"
    using year_month_of_index [OF assms(1) ps] assms(4) by (simp add: month_end_of_index_def)
  have rfb: "ts_le (rollforward (ds, 0)) Timestamp_max"
    unfolding rf using ys by (rule ts_le_max_of_year)
  have rb: "rollback (de, te) = (month_end_of_index (month_index de - 1), te)"
    by (simp add: rollback_def minus_MonthEnd_def)
  have rbb: "ts_le Timestamp_min (rollback (de, te))"
    unfolding rb using ke by (rule prev_month_end_in_range)
  have ms: "ts_le Timestamp_min (minus_MonthEnd ?s)"
    using prev_month_end_in_range [OF ks]
    by (simp add: minus_MonthEnd_def month_index_month_end_of_index)
  define e where "e = (if \<not> is_month_end ds then (de, te)
      else if \<not> is_month_end de then rollback (de, te) else (de, te))"
  have sme: "is_month_end ds \<Longrightarrow> (ds, 0 :: nat) = ?s"
    using month_end_of_index_month_index [OF assms(1) _ ps] by simp
  have dr: "date_range_M (Stamp ds 0) (Stamp de te) = generate_range ?s e"
  proof (cases "ts_le ?s e")
    case True
    then show ?thesis
      using ib rfb rbb sme unfolding e_def
      by (auto simp: date_range_M_def Let_def rf)
  next
    case False
    then have "generate_range ?s e = Inr []" by (rule generate_range_not_started)
    then show ?thesis
      using False ib rfb rbb ms sme unfolding e_def
      by (auto simp: date_range_M_def Let_def rf)
  qed
  have ye: "year (fst e) \<le> 2261"
  proof -
    have "(month_index de - 1) div 12 \<le> month_index de div 12" by (rule div_le_mono) simp
    then have "int ((month_index de - 1) div 12) \<le> year de"
      using year_month_of_index [OF assms(2) pe] by linarith
    then show ?thesis using assms(6) by (simp add: e_def rb month_end_of_index_def)
  qed
  have q: "ts_le (month_end_of_index j, 0) e \<longleftrightarrow> date_le (month_end_of_index j) de" for j
  proof (cases "is_month_end ds \<and> \<not> is_month_end de")
    case False
    then have "e = (de, te)" by (auto simp: e_def)
    then show ?thesis by (simp add: ts_le_midnight)
  next
    case True
    then have "e = (month_end_of_index (month_index de - 1), te)" by (simp add: e_def rb)
    then have "ts_le (month_end_of_index j, 0) e \<longleftrightarrow> j \<le> month_index de - 1"
      by (simp add: ts_le_midnight month_end_of_index_le_iff)
    also have "\<dots> \<longleftrightarrow> j < month_index de" using ke by arith
    also have "\<dots> \<longleftrightarrow> date_le (month_end_of_index j) de"
      using month_end_le_date_iff [OF assms(2) pe, of j] True by simp
    finally show ?thesis .
  qed
  from generate_range_month_ends [OF ye, of ?k 0] obtain n where n: "?k \<le> n"
      "generate_range ?s e = Inr (map (\<lambda>j. (month_end_of_index j, 0)) [?k..<n])"
      "\<forall>j. ?k \<le> j \<and> j < n \<longrightarrow> ts_le (month_end_of_index j, 0) e"
      "\<not> ts_le (month_end_of_index n, 0) e"
    by blast
  have c: "\<forall>j. ?k \<le> j \<longrightarrow> (j < n \<longleftrightarrow> date_le (month_end_of_index j) de)"
  proof (intro allI impI iffI)
    fix j assume "?k \<le> j" and "j < n"
    then show "date_le (month_end_of_index j) de" using n(3) q by blast
  next
    fix j assume "?k \<le> j" and d: "date_le (month_end_of_index j) de"
    show "j < n"
    proof (rule ccontr)
      assume "\<not> j < n"
      then have nj: "n \<le> j" by simp
      from d have "j < month_index de \<or> (j = month_index de \<and> is_month_end de)"
        by (simp only: month_end_le_date_iff [OF assms(2) pe])
      with nj have "n < month_index de \<or> (n = month_index de \<and> is_month_end de)" by arith
      then have "date_le (month_end_of_index n) de"
        by (simp only: month_end_le_date_iff [OF assms(2) pe])
      with n(4) q show False by blast
    qed
  qed
  show ?thesis
    by (rule exI [of _ n]) (use n(1,2) dr c in simp)
qed

section \<open>The request batcher\<close>

text \<open>
  Claim C3, as amended. For time bounds whose start is a date at midnight and whose start
  and end are valid timestamps in the years 1678 to 2261, \<open>time_bounds_to_year_month\<close>
  returns the (year, month) strings of a list of dates that holds exactly the calendar
  month ends lying between the start's date and the end's date inclusive, each once, in
  chronological order; so there is one pair per month end in the range.
\<close>

theorem time_bounds_to_year_month_month_ends:
  assumes "tb_start tb = Stamp ds 0" and "tb_end tb = Stamp de te"
    and "valid_date ds" and "valid_date de"
    and "1678 \<le> year ds" and "year ds \<le> 2261"
    and "1678 \<le> year de" and "year de \<le> 2261"
  shows "\<exists>ends. time_bounds_to_year_month tb =
             Inr (map (\<lambda>d. (str_nat (nat (year d)), str_nat (month d))) ends)
           \<and> set ends = {d. valid_date d \<and> is_month_end d \<and> date_le ds d \<and> date_le d de}
           \<and> sorted_wrt date_less ends
           \<and> distinct ends
           \<and> length ends =
               card {d. valid_date d \<and> is_month_end d \<and> date_le ds d \<and> date_le d de}"
proof -
  let ?k = "month_index ds"
  have ps: "0 \<le> year ds" using assms(5) by simp
  from date_range_M_midnight [OF assms(3-8), of te] obtain n where n: "?k \<le> n"
      "date_range_M (Stamp ds 0) (Stamp de te) =
         Inr (map (\<lambda>j. (month_end_of_index j, 0)) [?k..<n])"
      "\<forall>j. ?k \<le> j \<longrightarrow> (j < n \<longleftrightarrow> date_le (month_end_of_index j) de)"
    by blast
  let ?ends = "map month_end_of_index [?k..<n]"
  have r: "time_bounds_to_year_month tb =
      Inr (map (\<lambda>d. (str_nat (nat (year d)), str_nat (month d))) ?ends)"
    by (simp add: time_bounds_to_year_month_def assms(1,2) n(2) comp_def)
  have s: "set ?ends = {d. valid_date d \<and> is_month_end d \<and> date_le ds d \<and> date_le d de}"
  proof (intro set_eqI iffI)
    fix d assume "d \<in> set ?ends"
    then obtain j where j: "d = month_end_of_index j" "?k \<le> j" "j < n" by auto
    have "date_le ds d" unfolding j(1) using j(2)
      by (simp only: date_le_month_end_iff [OF assms(3) ps])
    moreover have "date_le d de" unfolding j(1) using n(3) j(2,3) by blast
    ultimately show "d \<in> {d. valid_date d \<and> is_month_end d \<and> date_le ds d \<and> date_le d de}"
      unfolding j(1) by (simp add: month_end_of_index_valid month_end_of_index_is_end)
  next
    fix d assume "d \<in> {d. valid_date d \<and> is_month_end d \<and> date_le ds d \<and> date_le d de}"
    then have d: "valid_date d" "is_month_end d" "date_le ds d" "date_le d de" by simp_all
    from d(3) have "year ds \<le> year d" by (auto simp: date_le_def)
    with ps have pd: "0 \<le> year d" by simp
    have e: "month_end_of_index (month_index d) = d"
      using d(1,2) pd by (rule month_end_of_index_month_index)
    from d(3) have lo: "?k \<le> month_index d"
      by (subst (asm) e [symmetric]) (simp only: date_le_month_end_iff [OF assms(3) ps])
    from d(4) have "date_le (month_end_of_index (month_index d)) de" by (simp only: e)
    with n(3) lo have hi: "month_index d < n" by blast
    have "month_index d \<in> set [?k..<n]" using lo hi by simp
    then have "month_end_of_index (month_index d) \<in> set ?ends"
      by (simp only: set_map) (rule imageI)
    then show "d \<in> set ?ends" by (simp only: e)
  qed
  have o: "sorted_wrt date_less ?ends" by (rule sorted_month_ends)
  have i: "distinct ?ends" by (rule distinct_month_ends)
  have "length ?ends = card (set ?ends)" using i by (simp only: distinct_card)
  then have l: "length ?ends =
      card {d. valid_date d \<and> is_month_end d \<and> date_le ds d \<and> date_le d de}"
    by (simp only: s)
  show ?thesis by (rule exI [of _ ?ends]) (intro conjI r s o i l)
qed

lemma time_bounds_to_year_month_example:
  "time_bounds_to_year_month
     \<lparr>tb_start = Stamp \<lparr>year = 2010, month = 11, day = 15\<rparr> 0,
      tb_end = Stamp \<lparr>year = 2011, month = 2, day = 27\<rparr> 0\<rparr>
   = Inr [(''2010'', ''11''), (''2010'', ''12''), (''2011'', ''1'')]"
  by (simp add: time_bounds_to_year_month_def date_range_M_def in_bounds_def ts_le_def
      date_less_def date_le_def Timestamp_min_def Timestamp_max_def is_month_end_def
      days_in_month_def is_leap_def rollforward_def rollback_def minus_MonthEnd_def
      plus_MonthEnd_def month_index_def month_end_of_index_def generate_range.simps
      str_nat.simps digit_char_def Let_def)

theorem time_bounds_to_year_month_month_ends_witness:
  "valid_date \<lparr>year = 2010, month = 11, day = 15\<rparr>
   \<and> valid_date \<lparr>year = 2011, month = 2, day = 27\<rparr>
   \<and> time_bounds_to_year_month
        \<lparr>tb_start = Stamp \<lparr>year = 2010, month = 11, day = 15\<rparr> 0,
         tb_end = Stamp \<lparr>year = 2011, month = 2, day = 27\<rparr> 0\<rparr>
       = Inr [(''2010'', ''11''), (''2010'', ''12''), (''2011'', ''1'')]
   \<and> card {d. valid_date d \<and> is_month_end d
              \<and> date_le \<lparr>year = 2010, month = 11, day = 15\<rparr> d
              \<and> date_le d \<lparr>year = 2011, month = 2, day = 27\<rparr>} = 3"
proof -
  let ?tb = "\<lparr>tb_start = Stamp \<lparr>year = 2010, month = 11, day = 15\<rparr> 0,
         tb_end = Stamp \<lparr>year = 2011, month = 2, day = 27\<rparr> 0\<rparr>"
  have v1: "valid_date \<lparr>year = 2010, month = 11, day = 15\<rparr>"
    by (simp add: valid_date_def days_in_month_def)
  have v2: "valid_date \<lparr>year = 2011, month = 2, day = 27\<rparr>"
    by (simp add: valid_date_def days_in_month_def is_leap_def)
  have a: "tb_start ?tb = Stamp \<lparr>year = 2010, month = 11, day = 15\<rparr> 0"
    and b: "tb_end ?tb = Stamp \<lparr>year = 2011, month = 2, day = 27\<rparr> 0" by simp_all
  have y: "1678 \<le> year \<lparr>year = 2010, month = 11, day = 15\<rparr>"
      "year \<lparr>year = 2010, month = 11, day = 15\<rparr> \<le> 2261"
      "1678 \<le> year \<lparr>year = 2011, month = 2, day = 27\<rparr>"
      "year \<lparr>year = 2011, month = 2, day = 27\<rparr> \<le> 2261"
    by simp_all
  from time_bounds_to_year_month_month_ends [OF a b v1 v2 y] obtain ends where
    e: "time_bounds_to_year_month ?tb =
          Inr (map (\<lambda>d. (str_nat (nat (year d)), str_nat (month d))) ends)"
    and "set ends = {d. valid_date d \<and> is_month_end d
              \<and> date_le \<lparr>year = 2010, month = 11, day = 15\<rparr> d
              \<and> date_le d \<lparr>year = 2011, month = 2, day = 27\<rparr>}"
    and "sorted_wrt date_less ends" and "distinct ends"
    and c: "length ends = card {d. valid_date d \<and> is_month_end d
              \<and> date_le \<lparr>year = 2010, month = 11, day = 15\<rparr> d
              \<and> date_le d \<lparr>year = 2011, month = 2, day = 27\<rparr>}"
    by (elim exE conjE)
  from e have "map (\<lambda>d. (str_nat (nat (year d)), str_nat (month d))) ends =
      [(''2010'', ''11''), (''2010'', ''12''), (''2011'', ''1'')]"
    by (simp only: time_bounds_to_year_month_example sum.inject)
  then have "length (map (\<lambda>d. (str_nat (nat (year d)), str_nat (month d))) ends) =
      length [(''2010'', ''11''), (''2010'', ''12''), (''2011'', ''1'')]"
    by (rule arg_cong)
  then have "length ends = 3" by simp
  with c have "card {d. valid_date d \<and> is_month_end d
              \<and> date_le \<lparr>year = 2010, month = 11, day = 15\<rparr> d
              \<and> date_le d \<lparr>year = 2011, month = 2, day = 27\<rparr>} = 3"
    by simp
  then show ?thesis
    by (intro conjI v1 v2 time_bounds_to_year_month_example) assumption
qed

text \<open>
  The claim as first stated covers every time bounds. It does not hold. With a start at
  noon of 2010-01-15 and the end 2010-03-31 the month ends 2010-01-31, 2010-02-28 and
  2010-03-31 lie between start and end, but the timestamps of \<open>date_range\<close> carry the
  start's time of day, the one for March is past the end, and two pairs are returned.
  With the end 2262-06-30, past the last \<open>Timestamp\<close>, nothing is returned: the call
  raises.
\<close>

theorem time_bounds_to_year_month_time_of_day:
  "time_bounds_to_year_month
     \<lparr>tb_start = Stamp \<lparr>year = 2010, month = 1, day = 15\<rparr> 43200000000000,
      tb_end = Stamp \<lparr>year = 2010, month = 3, day = 31\<rparr> 0\<rparr>
     = Inr [(''2010'', ''1''), (''2010'', ''2'')]
   \<and> list_all (\<lambda>d. valid_date d \<and> is_month_end d
         \<and> ts_le (\<lparr>year = 2010, month = 1, day = 15\<rparr>, 43200000000000) (d, 0)
         \<and> ts_le (d, 0) (\<lparr>year = 2010, month = 3, day = 31\<rparr>, 0))
       [\<lparr>year = 2010, month = 1, day = 31\<rparr>, \<lparr>year = 2010, month = 2, day = 28\<rparr>,
        \<lparr>year = 2010, month = 3, day = 31\<rparr>]
   \<and> time_bounds_to_year_month
       \<lparr>tb_start = Stamp \<lparr>year = 2262, month = 3, day = 1\<rparr> 0,
        tb_end = Stamp \<lparr>year = 2262, month = 6, day = 30\<rparr> 0\<rparr>
     = Inl OutOfBoundsDatetime"
  by (simp add: time_bounds_to_year_month_def date_range_M_def in_bounds_def ts_le_def
      date_less_def date_le_def Timestamp_min_def Timestamp_max_def is_month_end_def
      days_in_month_def is_leap_def rollforward_def rollback_def minus_MonthEnd_def
      plus_MonthEnd_def month_index_def month_end_of_index_def generate_range.simps
      str_nat.simps digit_char_def Let_def valid_date_def)

section \<open>Facts about the retrieval loop\<close>

lemma retrievals_append: "retrievals (xs @ ys) = retrievals xs @ retrievals ys"
  by (induction xs rule: retrievals.induct) simp_all

lemma downloads_append: "downloads (xs @ ys) = downloads xs @ downloads ys"
  by (induction xs rule: downloads.induct) simp_all

lemma issued_append: "calls w' = calls w @ evs \<Longrightarrow> issued w w' = evs"
  by (simp add: issued_def)

lemma get_file_size_calls: "get_file_size (w\<lparr>calls := cs\<rparr>) p = get_file_size w p"
  by (simp add: get_file_size_def)

lemma cds_item_served:
  assumes "names v = Some code"
    and "srv c (calls w) dataset (mk_request code y m sb) = Inr r"
  shows "cds_item srv c dataset fname sb pth names ow ((y, m), v) w =
    (if get_file_size w (path_join pth (fname @ ''_'' @ v @ ''_'' @ y @ ''-'' @ m @ ''.nc''))
          \<noteq> content_length r \<or> ow
     then (case download_result r of
             Inl e \<Rightarrow> (Inl e, w\<lparr>calls := calls w @ [Retrieve dataset (mk_request code y m sb),
                  Download (path_join pth (fname @ ''_'' @ v @ ''_'' @ y @ ''-'' @ m @ ''.nc''))]\<rparr>)
           | Inr data \<Rightarrow> (Inr (), w\<lparr>calls := calls w @ [Retrieve dataset (mk_request code y m sb),
                  Download (path_join pth (fname @ ''_'' @ v @ ''_'' @ y @ ''-'' @ m @ ''.nc''))],
                files := (files w)(path_join pth (fname @ ''_'' @ v @ ''_'' @ y @ ''-'' @ m @ ''.nc'') \<mapsto> data)\<rparr>))
     else (Inr (), w\<lparr>calls := calls w @ [Retrieve dataset (mk_request code y m sb)]\<rparr>))"
  using assms
  by (simp add: cds_item_def Let_def get_file_size_calls split: sum.split)

lemma cds_item_success:
  assumes "cds_item srv c dataset fname sb pth names ow ((y, m), v) w = (Inr u, w')"
  shows "\<exists>code evs. names v = Some code \<and> calls w' = calls w @ evs
           \<and> retrievals evs = [(dataset, mk_request code y m sb)]"
proof (cases "names v")
  case None
  with assms show ?thesis by (simp add: cds_item_def)
next
  case (Some code)
  show ?thesis
  proof (cases "srv c (calls w) dataset (mk_request code y m sb)")
    case (Inl e)
    with Some assms show ?thesis by (simp add: cds_item_def Let_def)
  next
    case (Inr r)
    have "cds_item srv c dataset fname sb pth names ow ((y, m), v) w =
        (Inr u, w') \<longrightarrow> ?thesis"
      unfolding cds_item_served [where names = names and srv = srv, OF Some Inr]
      by (auto simp: Some split: if_splits sum.splits)
    with assms show ?thesis by blast
  qed
qed


lemma for_each_cds_item_success:
  assumes "for_each (cds_item srv c dataset fname sb pth names ow) items w = (Inr u, w')"
  shows "\<exists>evs. calls w' = calls w @ evs
           \<and> retrievals evs =
               map (\<lambda>((y, m), v). (dataset, mk_request (the (names v)) y m sb)) items
           \<and> list_all (\<lambda>item. names (snd item) \<noteq> None) items"
  using assms
proof (induction items arbitrary: w)
  case Nil
  then show ?case by simp
next
  case (Cons item items)
  obtain y m v where item: "item = ((y, m), v)" by (metis surj_pair)
  obtain r1 w1 where step: "cds_item srv c dataset fname sb pth names ow item w = (r1, w1)"
    by (metis surj_pair)
  from Cons.prems step obtain u1 where r1: "r1 = Inr u1"
    by (cases r1) simp_all
  from Cons.prems step r1
  have rest: "for_each (cds_item srv c dataset fname sb pth names ow) items w1 = (Inr u, w')"
    by simp
  from step r1 item obtain code evs1 where one: "names v = Some code"
      "calls w1 = calls w @ evs1" "retrievals evs1 = [(dataset, mk_request code y m sb)]"
    using cds_item_success [of srv c dataset fname sb pth names ow y m v w u1 w1] by blast
  from Cons.IH [OF rest] obtain evs2 where more: "calls w' = calls w1 @ evs2"
      "retrievals evs2 =
         map (\<lambda>((y, m), v). (dataset, mk_request (the (names v)) y m sb)) items"
      "list_all (\<lambda>item. names (snd item) \<noteq> None) items"
    by blast
  have "calls w' = calls w @ (evs1 @ evs2)" using one(2) more(1) by simp
  moreover have "retrievals (evs1 @ evs2) =
      map (\<lambda>((y, m), v). (dataset, mk_request (the (names v)) y m sb)) (item # items)"
    using one(1,3) more(2) item by (simp add: retrievals_append)
  moreover have "list_all (\<lambda>item. names (snd item) \<noteq> None) (item # items)"
    using one(1) more(3) item by simp
  ultimately show ?case by blast
qed

lemma cds_request_success:
  assumes "cds_request srv dataset variables tb sb pth names ow w = (Inr u, w')"
  shows "\<exists>pairs. time_bounds_to_year_month tb = Inr pairs
           \<and> retrievals (issued w w') =
               map (\<lambda>((y, m), v). (dataset, mk_request (the (names v)) y m sb))
                 (List.product pairs variables)
           \<and> list_all (\<lambda>item. names (snd item) \<noteq> None) (List.product pairs variables)"
proof -
  from assms obtain fname c pairs where
    p: "time_bounds_to_year_month tb = Inr pairs" and
    loop: "for_each (cds_item srv c dataset fname sb pth names ow)
             (List.product pairs variables) w = (Inr u, w')"
    by (auto simp: cds_request_def split: option.splits sum.splits)
  from for_each_cds_item_success [OF loop] obtain evs where
    e: "calls w' = calls w @ evs"
       "retrievals evs = map (\<lambda>((y, m), v). (dataset, mk_request (the (names v)) y m sb))
             (List.product pairs variables)"
       "list_all (\<lambda>item. names (snd item) \<noteq> None) (List.product pairs variables)"
    by blast
  from e(1) have "issued w w' = evs" by (rule issued_append)
  with e(2,3) p show ?thesis by simp
qed


lemma fst_snd_eq: "fst p = a \<Longrightarrow> p = (a, snd p)"
  by (cases p) simp

lemma cds_item_requests:
  assumes "names v = Some code"
  shows "\<exists>evs. calls (snd (cds_item srv c dataset fname sb pth names ow ((y, m), v) w)) = calls w @ evs
           \<and> retrievals evs = [(dataset, mk_request code y m sb)]"
proof (cases "srv c (calls w) dataset (mk_request code y m sb)")
  case (Inl e)
  with assms show ?thesis by (simp add: cds_item_def Let_def)
next
  case (Inr r)
  show ?thesis
    unfolding cds_item_served [where names = names and srv = srv, OF assms Inr]
    by (simp split: sum.split)
qed

lemma test_config_read: "read_config test_world = Inr \<lparr>url = ''a'', key = ''123:abc-def''\<rparr>"
  by (simp add: read_config_def test_world_def test_config_def readline_def newline_def
      after_colon_def strip_def is_space_def)

lemma test_times_pairs: "time_bounds_to_year_month test_times = Inr [(''2010'', ''1'')]"
  by (simp add: test_times_def time_bounds_to_year_month_def date_range_M_def in_bounds_def
      ts_le_def date_less_def date_le_def Timestamp_min_def Timestamp_max_def is_month_end_def
      days_in_month_def is_leap_def rollforward_def rollback_def minus_MonthEnd_def
      plus_MonthEnd_def month_index_def month_end_of_index_def generate_range.simps
      str_nat.simps digit_char_def Let_def)

lemma test_run:
  "fst (cds_request (test_server n) ''reanalysis-era5-land'' [''2m_dewpoint_temperature'']
          test_times test_bbox pth test_names ow test_world) = Inr ()"
  by (simp add: cds_request_def PRODUCT_FNAME_def test_config_read test_times_pairs cds_item_def
      test_names_def test_server_def Let_def)

lemma test_run_calls:
  "calls (snd (cds_request (test_server n) ''reanalysis-era5-land'' [''2m_dewpoint_temperature'']
          test_times test_bbox pth test_names True test_world)) =
     [Retrieve ''reanalysis-era5-land''
        (mk_request ''2m_dewpoint_temperature'' ''2010'' ''1'' test_bbox),
      Download (path_join pth ''era5-land_2m_dewpoint_temperature_2010-1.nc'')]"
  by (simp add: cds_request_def PRODUCT_FNAME_def test_config_read [unfolded test_world_def]
      test_times_pairs cds_item_def test_names_def test_server_def Let_def test_world_def
      path_join_def)

section \<open>Skipping by size\<close>

text \<open>
  Claim C1, as amended. For every item whose request the server answers: when
  overwrite is False and a local file whose size equals the reported content length
  exists, the item issues exactly one retrieval request and no download, succeeds and
  leaves the files as they are; when overwrite is True it issues exactly one retrieval
  request followed by exactly one download of the item's file, whatever the size of an
  existing file.
\<close>

theorem cds_item_skip_or_overwrite:
  assumes "names v = Some code"
    and "srv c (calls w) dataset (mk_request code y m sb) = Inr r"
    and "fpath = path_join pth (fname @ ''_'' @ v @ ''_'' @ y @ ''-'' @ m @ ''.nc'')"
  shows "(\<not> ow \<and> files w fpath = Some old \<and> length old = content_length r \<longrightarrow>
            cds_item srv c dataset fname sb pth names ow ((y, m), v) w =
              (Inr (), w\<lparr>calls := calls w @ [Retrieve dataset (mk_request code y m sb)]\<rparr>))
         \<and> (ow \<longrightarrow>
            issued w (snd (cds_item srv c dataset fname sb pth names ow ((y, m), v) w)) =
              [Retrieve dataset (mk_request code y m sb), Download fpath])"
  unfolding cds_item_served [where names = names and srv = srv, OF assms(1,2)] assms(3)
  by (simp add: get_file_size_def issued_def split: sum.split)

theorem cds_item_skip_or_overwrite_witness:
  "cds_item (test_server 3) \<lparr>url = ''a'', key = ''k''\<rparr> ''reanalysis-era5-land'' ''era5-land''
      test_bbox ''d'' test_names False ((''2010'', ''1''), ''2m_dewpoint_temperature'')
      (test_world\<lparr>files := [''d/era5-land_2m_dewpoint_temperature_2010-1.nc'' \<mapsto> ''abc'']\<rparr>)
    = (Inr (),
       test_world\<lparr>files := [''d/era5-land_2m_dewpoint_temperature_2010-1.nc'' \<mapsto> ''abc''],
                  calls := [Retrieve ''reanalysis-era5-land''
                    (mk_request ''2m_dewpoint_temperature'' ''2010'' ''1'' test_bbox)]\<rparr>)
   \<and> issued test_world
        (snd (cds_item (test_server 3) \<lparr>url = ''a'', key = ''k''\<rparr> ''reanalysis-era5-land''
           ''era5-land'' test_bbox ''d'' test_names True
           ((''2010'', ''1''), ''2m_dewpoint_temperature'') test_world))
      = [Retrieve ''reanalysis-era5-land''
           (mk_request ''2m_dewpoint_temperature'' ''2010'' ''1'' test_bbox),
         Download ''d/era5-land_2m_dewpoint_temperature_2010-1.nc'']"
proof -
  have n: "test_names ''2m_dewpoint_temperature'' = Some ''2m_dewpoint_temperature''"
    by (simp add: test_names_def)
  have s: "test_server 3 c evs d q =
      Inr \<lparr>content_length = 3, download_result = Inr ''xxx''\<rparr>" for c evs d q
    by (simp add: test_server_def numeral_3_eq_3)
  have p: "''d/era5-land_2m_dewpoint_temperature_2010-1.nc'' =
      path_join ''d'' (''era5-land'' @ ''_'' @ ''2m_dewpoint_temperature'' @ ''_'' @ ''2010'' @ ''-'' @ ''1'' @ ''.nc'')"
    by (simp add: path_join_def)
  show ?thesis
    using cds_item_skip_or_overwrite [where names = test_names and srv = "test_server 3"
        and ow = False and old = "''abc''"
        and w = "test_world\<lparr>files := [''d/era5-land_2m_dewpoint_temperature_2010-1.nc'' \<mapsto> ''abc'']\<rparr>",
        OF n s p]
      cds_item_skip_or_overwrite [where names = test_names and srv = "test_server 3"
        and ow = True and w = test_world, OF n s p]
    by (simp add: test_world_def)
qed

text \<open>
  The claim as first stated has the skipped item issue no retrieval call at all. It does
  not hold: with a file of three bytes at the target path, a server that reports a
  content length of three and overwrite False, the item issues one retrieval request
  (and no download).
\<close>

theorem cds_item_same_size_still_retrieves:
  "map_sum id content_length
      (test_server 3 \<lparr>url = ''a'', key = ''k''\<rparr> [] ''reanalysis-era5-land''
         (mk_request ''2m_dewpoint_temperature'' ''2010'' ''1'' test_bbox)) = Inr 3
   \<and> get_file_size
      (test_world\<lparr>files := [''d/era5-land_2m_dewpoint_temperature_2010-1.nc'' \<mapsto> ''abc'']\<rparr>)
      ''d/era5-land_2m_dewpoint_temperature_2010-1.nc'' = 3
   \<and> retrievals (issued
        (test_world\<lparr>files := [''d/era5-land_2m_dewpoint_temperature_2010-1.nc'' \<mapsto> ''abc'']\<rparr>)
        (snd (cds_item (test_server 3) \<lparr>url = ''a'', key = ''k''\<rparr> ''reanalysis-era5-land''
           ''era5-land'' test_bbox ''d'' test_names False
           ((''2010'', ''1''), ''2m_dewpoint_temperature'')
           (test_world\<lparr>files := [''d/era5-land_2m_dewpoint_temperature_2010-1.nc'' \<mapsto> ''abc'']\<rparr>))))
      = [(''reanalysis-era5-land'',
          mk_request ''2m_dewpoint_temperature'' ''2010'' ''1'' test_bbox)]
   \<and> downloads (issued
        (test_world\<lparr>files := [''d/era5-land_2m_dewpoint_temperature_2010-1.nc'' \<mapsto> ''abc'']\<rparr>)
        (snd (cds_item (test_server 3) \<lparr>url = ''a'', key = ''k''\<rparr> ''reanalysis-era5-land''
           ''era5-land'' test_bbox ''d'' test_names False
           ((''2010'', ''1''), ''2m_dewpoint_temperature'')
           (test_world\<lparr>files := [''d/era5-land_2m_dewpoint_temperature_2010-1.nc'' \<mapsto> ''abc'']\<rparr>))))
      = []"
  by (simp add: cds_item_def test_names_def test_server_def test_world_def get_file_size_def
      path_join_def issued_def Let_def)

text \<open>
  Claim C10. When no file exists at the target path, the server reports a content length
  of 0 and overwrite is False, the sizes compare equal (the size of a missing file is 0):
  the item is skipped, nothing is downloaded and there is still no file at the path.
\<close>

theorem cds_item_skips_missing_file_of_length_zero:
  assumes "names v = Some code"
    and "srv c (calls w) dataset (mk_request code y m sb) = Inr r"
    and "fpath = path_join pth (fname @ ''_'' @ v @ ''_'' @ y @ ''-'' @ m @ ''.nc'')"
    and "files w fpath = None"
    and "content_length r = 0"
  shows "get_file_size w fpath = content_length r
         \<and> cds_item srv c dataset fname sb pth names False ((y, m), v) w =
             (Inr (), w\<lparr>calls := calls w @ [Retrieve dataset (mk_request code y m sb)]\<rparr>)
         \<and> downloads (issued w
               (snd (cds_item srv c dataset fname sb pth names False ((y, m), v) w))) = []
         \<and> files (snd (cds_item srv c dataset fname sb pth names False ((y, m), v) w)) fpath
             = None"
  unfolding cds_item_served [where names = names and srv = srv, OF assms(1,2)]
  using assms(3,4,5)
  by (simp add: get_file_size_def issued_def)

theorem cds_item_skips_missing_file_of_length_zero_witness:
  "files test_world ''d/era5-land_2m_dewpoint_temperature_2010-1.nc'' = None
   \<and> get_file_size test_world ''d/era5-land_2m_dewpoint_temperature_2010-1.nc'' = 0
   \<and> cds_item (test_server 0) \<lparr>url = ''a'', key = ''k''\<rparr> ''reanalysis-era5-land'' ''era5-land''
        test_bbox ''d'' test_names False ((''2010'', ''1''), ''2m_dewpoint_temperature'')
        test_world
      = (Inr (), test_world\<lparr>calls := [Retrieve ''reanalysis-era5-land''
           (mk_request ''2m_dewpoint_temperature'' ''2010'' ''1'' test_bbox)]\<rparr>)
   \<and> files (snd (cds_item (test_server 0) \<lparr>url = ''a'', key = ''k''\<rparr> ''reanalysis-era5-land''
        ''era5-land'' test_bbox ''d'' test_names False
        ((''2010'', ''1''), ''2m_dewpoint_temperature'') test_world))
        ''d/era5-land_2m_dewpoint_temperature_2010-1.nc'' = None"
proof -
  have n: "test_names ''2m_dewpoint_temperature'' = Some ''2m_dewpoint_temperature''"
    by (simp add: test_names_def)
  have s: "test_server 0 c evs d q =
      Inr \<lparr>content_length = 0, download_result = Inr []\<rparr>" for c evs d q
    by (simp add: test_server_def)
  have p: "''d/era5-land_2m_dewpoint_temperature_2010-1.nc'' =
      path_join ''d'' (''era5-land'' @ ''_'' @ ''2m_dewpoint_temperature'' @ ''_'' @ ''2010'' @ ''-'' @ ''1'' @ ''.nc'')"
    by (simp add: path_join_def)
  have f: "files test_world ''d/era5-land_2m_dewpoint_temperature_2010-1.nc'' = None"
    by (simp add: test_world_def CDSAPI_CONFIG_PATH_def)
  have z: "content_length \<lparr>content_length = 0, download_result = Inr []\<rparr> = 0" by simp
  show ?thesis
    using cds_item_skips_missing_file_of_length_zero [where names = test_names
        and srv = "test_server 0" and w = test_world, OF n s p f z] f
    by (simp add: test_world_def get_file_size_def)
qed


section \<open>The order of the requests\<close>

lemma cds_item_total:
  assumes "names v = Some code"
    and "\<And>evs q. \<exists>r bytes. srv c evs dataset q = Inr r \<and> download_result r = Inr bytes"
  shows "fst (cds_item srv c dataset fname sb pth names ow ((y, m), v) w) = Inr ()"
proof -
  from assms(2) [of "calls w" "mk_request code y m sb"] obtain r bytes where
    r: "srv c (calls w) dataset (mk_request code y m sb) = Inr r"
       "download_result r = Inr bytes"
    by blast
  show ?thesis
    unfolding cds_item_served [where names = names and srv = srv, OF assms(1) r(1)]
    by (simp add: r(2))
qed

lemma for_each_cds_item_total:
  assumes "list_all (\<lambda>item. names (snd item) \<noteq> None) items"
    and "\<And>evs q. \<exists>r bytes. srv c evs dataset q = Inr r \<and> download_result r = Inr bytes"
  shows "fst (for_each (cds_item srv c dataset fname sb pth names ow) items w) = Inr ()"
  using assms(1)
proof (induction items arbitrary: w)
  case Nil
  then show ?case by simp
next
  case (Cons item items)
  obtain y m v where item: "item = ((y, m), v)" by (metis surj_pair)
  from Cons.prems item obtain code where code: "names v = Some code" by auto
  from Cons.prems have rest: "list_all (\<lambda>item. names (snd item) \<noteq> None) items" by simp
  have "fst (cds_item srv c dataset fname sb pth names ow ((y, m), v) w) = Inr ()"
    using code assms(2) by (rule cds_item_total)
  then obtain w1 where
    "cds_item srv c dataset fname sb pth names ow item w = (Inr (), w1)"
    unfolding item by (metis fst_snd_eq)
  then show ?case using Cons.IH [OF rest, of w1] by simp
qed

lemma product_nth_row:
  assumes "i < length xs" and "j < length ys"
  shows "i * length ys + j < length xs * length ys"
    and "List.product xs ys ! (i * length ys + j) = (xs ! i, ys ! j)"
proof -
  have "i * length ys + j < i * length ys + length ys" using assms(2) by simp
  also have "\<dots> = Suc i * length ys" by simp
  also have "\<dots> \<le> length xs * length ys"
    using assms(1) by (intro mult_le_mono1) simp
  finally show b: "i * length ys + j < length xs * length ys" .
  have nz: "length ys \<noteq> 0" using assms(2) by auto
  have d: "(i * length ys + j) div length ys = i"
    using assms(2) by (simp only: div_mult_self3 [OF nz] div_less add_0_right)
  have m: "(i * length ys + j) mod length ys = j"
    using assms(2) by (simp only: mod_mult_self3 mod_less)
  show "List.product xs ys ! (i * length ys + j) = (xs ! i, ys ! j)"
    using product_nth [OF b] by (simp only: d m)
qed

lemma test_two_months_pairs:
  "time_bounds_to_year_month test_two_months = Inr [(''2010'', ''1''), (''2010'', ''2'')]"
  by (simp add: test_two_months_def time_bounds_to_year_month_def date_range_M_def in_bounds_def
      ts_le_def date_less_def date_le_def Timestamp_min_def Timestamp_max_def is_month_end_def
      days_in_month_def is_leap_def rollforward_def rollback_def minus_MonthEnd_def
      plus_MonthEnd_def month_index_def month_end_of_index_def generate_range.simps
      str_nat.simps digit_char_def Let_def)

lemma test_server_answers:
  "\<exists>r bytes. test_server n c evs d q = Inr r \<and> download_result r = Inr bytes"
  by (simp add: test_server_def)

lemma test_two_run:
  "cds_request (test_server n) ''reanalysis-era5-land''
      [''air_temperature'', ''dewpoint_temperature''] test_two_months test_bbox pth
      test_two_names ow test_world
   = (Inr (), snd (cds_request (test_server n) ''reanalysis-era5-land''
      [''air_temperature'', ''dewpoint_temperature''] test_two_months test_bbox pth
      test_two_names ow test_world))"
proof (rule fst_snd_eq)
  have a: "list_all (\<lambda>item. test_two_names (snd item) \<noteq> None)
      (List.product [(''2010'', ''1''), (''2010'', ''2'')]
         [''air_temperature'', ''dewpoint_temperature''])"
    by (simp add: test_two_names_def)
  have "fst (for_each
      (cds_item (test_server n) \<lparr>url = ''a'', key = ''123:abc-def''\<rparr> ''reanalysis-era5-land''
         ''era5-land'' test_bbox pth test_two_names ow)
      (List.product [(''2010'', ''1''), (''2010'', ''2'')]
         [''air_temperature'', ''dewpoint_temperature'']) test_world) = Inr ()"
    using a test_server_answers by (rule for_each_cds_item_total)
  then show "fst (cds_request (test_server n) ''reanalysis-era5-land''
      [''air_temperature'', ''dewpoint_temperature''] test_two_months test_bbox pth
      test_two_names ow test_world) = Inr ()"
    by (simp only: cds_request_def PRODUCT_FNAME_def test_config_read test_two_months_pairs
        map_of.simps fst_conv snd_conv option.case sum.case)
      (simp split: if_splits)
qed

text \<open>
  Claim C9. Two runs of \<open>cds_request\<close> on the same dataset, variables, time bounds,
  spatial bounds and variable codes, both running to the end, issue the same sequence of
  requests, whatever the server answers, the files present, the target folder and the
  overwrite flag. The sequence has one request per (year, month) pair and variable, each
  the dictionary of the source for that pair and that variable's code: the request at
  position \<open>i * length variables + j\<close> is the one for the \<open>i\<close>-th pair and the \<open>j\<close>-th
  variable, so the pairs run in the outer position, in the chronological order in which
  \<open>time_bounds_to_year_month\<close> returns them, and the variables in the inner one, in the
  order of the input list.
\<close>

theorem cds_request_same_request_sequence:
  assumes "cds_request srv1 dataset variables tb sb pth1 names ow1 w1 = (Inr (), w1')"
    and "cds_request srv2 dataset variables tb sb pth2 names ow2 w2 = (Inr (), w2')"
  shows "\<exists>pairs. time_bounds_to_year_month tb = Inr pairs
           \<and> retrievals (issued w1 w1') = retrievals (issued w2 w2')
           \<and> length (retrievals (issued w1 w1')) = length pairs * length variables
           \<and> list_all (\<lambda>v. names v \<noteq> None \<or> pairs = []) variables
           \<and> (\<forall>i j. i < length pairs \<and> j < length variables \<longrightarrow>
                 retrievals (issued w1 w1') ! (i * length variables + j) =
                   (dataset,
                    [(''product_type'', Str ''reanalysis''),
                     (''variable'', StrList [the (names (variables ! j))]),
                     (''year'', Str (fst (pairs ! i))),
                     (''month'', Str (snd (pairs ! i))),
                     (''day'', StrList all_days),
                     (''time'', StrList all_hours),
                     (''area'', NumList [north sb, west sb, south sb, east sb]),
                     (''format'', Str ''netcdf'')]))"
proof -
  from cds_request_success [OF assms(1)] obtain pairs where
    p: "time_bounds_to_year_month tb = Inr pairs" and
    r1: "retrievals (issued w1 w1') =
           map (\<lambda>((y, m), v). (dataset, mk_request (the (names v)) y m sb))
             (List.product pairs variables)" and
    n1: "list_all (\<lambda>item. names (snd item) \<noteq> None) (List.product pairs variables)"
    by blast
  from cds_request_success [OF assms(2)] p have
    r2: "retrievals (issued w2 w2') =
           map (\<lambda>((y, m), v). (dataset, mk_request (the (names v)) y m sb))
             (List.product pairs variables)"
    by auto
  have e: "retrievals (issued w1 w1') = retrievals (issued w2 w2')"
    using r1 r2 by simp
  have l: "length (retrievals (issued w1 w1')) = length pairs * length variables"
    using r1 by (simp add: length_product)
  have k: "list_all (\<lambda>v. names v \<noteq> None \<or> pairs = []) variables"
  proof (cases pairs)
    case Nil
    then show ?thesis by (simp add: list_all_iff)
  next
    case (Cons q qs)
    have "names v \<noteq> None" if "v \<in> set variables" for v
    proof -
      have "q \<in> set pairs" using Cons by simp
      with that have "(q, v) \<in> set (List.product pairs variables)" by simp
      moreover from n1 have "\<forall>item \<in> set (List.product pairs variables).
          names (snd item) \<noteq> None"
        by (simp only: list_all_iff)
      ultimately have "names (snd (q, v)) \<noteq> None" by (rule bspec [rotated])
      then show ?thesis by simp
    qed
    then show ?thesis by (simp add: list_all_iff)
  qed
  have i: "\<forall>i j. i < length pairs \<and> j < length variables \<longrightarrow>
      retrievals (issued w1 w1') ! (i * length variables + j) =
        (dataset,
         [(''product_type'', Str ''reanalysis''),
          (''variable'', StrList [the (names (variables ! j))]),
          (''year'', Str (fst (pairs ! i))),
          (''month'', Str (snd (pairs ! i))),
          (''day'', StrList all_days),
          (''time'', StrList all_hours),
          (''area'', NumList [north sb, west sb, south sb, east sb]),
          (''format'', Str ''netcdf'')])"
  proof (intro allI impI)
    fix i j assume "i < length pairs \<and> j < length variables"
    then have a: "i < length pairs" and b: "j < length variables" by simp_all
    note pr = product_nth_row [OF a b]
    have "i * length variables + j < length (List.product pairs variables)"
      using pr(1) by (simp add: length_product)
    then have "retrievals (issued w1 w1') ! (i * length variables + j) =
        (\<lambda>((y, m), v). (dataset, mk_request (the (names v)) y m sb))
          (List.product pairs variables ! (i * length variables + j))"
      unfolding r1 by (rule nth_map)
    also have "\<dots> = (\<lambda>((y, m), v). (dataset, mk_request (the (names v)) y m sb))
          (pairs ! i, variables ! j)"
      by (simp only: pr(2))
    also have "\<dots> = (dataset, mk_request (the (names (variables ! j)))
          (fst (pairs ! i)) (snd (pairs ! i)) sb)"
      by (simp add: case_prod_beta)
    finally show "retrievals (issued w1 w1') ! (i * length variables + j) =
        (dataset,
         [(''product_type'', Str ''reanalysis''),
          (''variable'', StrList [the (names (variables ! j))]),
          (''year'', Str (fst (pairs ! i))),
          (''month'', Str (snd (pairs ! i))),
          (''day'', StrList all_days),
          (''time'', StrList all_hours),
          (''area'', NumList [north sb, west sb, south sb, east sb]),
          (''format'', Str ''netcdf'')])"
      by (simp add: mk_request_def)
  qed
  show ?thesis by (rule exI [of _ pairs]) (intro conjI p e l k i)
qed

lemma list_of_four:
  assumes "length xs = 4"
  shows "xs = [xs ! 0, xs ! 1, xs ! 2, xs ! 3]"
proof (rule nth_equalityI)
  show "length xs = length [xs ! 0, xs ! 1, xs ! 2, xs ! 3]" using assms by simp
next
  fix i assume "i < length xs"
  then have "i = 0 \<or> i = 1 \<or> i = 2 \<or> i = 3" using assms by arith
  then show "xs ! i = [xs ! 0, xs ! 1, xs ! 2, xs ! 3] ! i"
    by (auto simp: numeral_2_eq_2 numeral_3_eq_3)
qed

theorem cds_request_same_request_sequence_witness:
  "fst (cds_request (test_server 3) ''reanalysis-era5-land''
          [''air_temperature'', ''dewpoint_temperature''] test_two_months test_bbox ''a''
          test_two_names True test_world) = Inr ()
   \<and> fst (cds_request (test_server 0) ''reanalysis-era5-land''
          [''air_temperature'', ''dewpoint_temperature''] test_two_months test_bbox ''b''
          test_two_names False test_world) = Inr ()
   \<and> retrievals (issued test_world
        (snd (cds_request (test_server 3) ''reanalysis-era5-land''
          [''air_temperature'', ''dewpoint_temperature''] test_two_months test_bbox ''a''
          test_two_names True test_world)))
      = retrievals (issued test_world
        (snd (cds_request (test_server 0) ''reanalysis-era5-land''
          [''air_temperature'', ''dewpoint_temperature''] test_two_months test_bbox ''b''
          test_two_names False test_world)))
   \<and> map (\<lambda>(d, r). (map_of r ''year'', map_of r ''month'', map_of r ''variable''))
        (retrievals (issued test_world
          (snd (cds_request (test_server 3) ''reanalysis-era5-land''
            [''air_temperature'', ''dewpoint_temperature''] test_two_months test_bbox ''a''
            test_two_names True test_world))))
      = [(Some (Str ''2010''), Some (Str ''1''), Some (StrList [''2m_temperature''])),
         (Some (Str ''2010''), Some (Str ''1''), Some (StrList [''2m_dewpoint_temperature''])),
         (Some (Str ''2010''), Some (Str ''2''), Some (StrList [''2m_temperature''])),
         (Some (Str ''2010''), Some (Str ''2''), Some (StrList [''2m_dewpoint_temperature'']))]"
proof -
  let ?vars = "[''air_temperature'', ''dewpoint_temperature'']"
  let ?A = "snd (cds_request (test_server 3) ''reanalysis-era5-land'' ?vars test_two_months
      test_bbox ''a'' test_two_names True test_world)"
  let ?B = "snd (cds_request (test_server 0) ''reanalysis-era5-land'' ?vars test_two_months
      test_bbox ''b'' test_two_names False test_world)"
  let ?R = "retrievals (issued test_world ?A)"
  let ?req = "\<lambda>y m code.
      (''reanalysis-era5-land'',
       [(''product_type'', Str ''reanalysis''),
        (''variable'', StrList [code]),
        (''year'', Str y),
        (''month'', Str m),
        (''day'', StrList all_days),
        (''time'', StrList all_hours),
        (''area'', NumList [north test_bbox, west test_bbox, south test_bbox, east test_bbox]),
        (''format'', Str ''netcdf'')])"
  note rA = test_two_run [of 3 "''a''" True]
  note rB = test_two_run [of 0 "''b''" False]
  from cds_request_same_request_sequence [OF rA rB] obtain pairs where
    p: "time_bounds_to_year_month test_two_months = Inr pairs" and
    e: "?R = retrievals (issued test_world ?B)" and
    l: "length ?R = length pairs * length ?vars" and
    "list_all (\<lambda>v. test_two_names v \<noteq> None \<or> pairs = []) ?vars" and
    idx: "\<forall>i j. i < length pairs \<and> j < length ?vars \<longrightarrow>
        ?R ! (i * length ?vars + j) =
          ?req (fst (pairs ! i)) (snd (pairs ! i)) (the (test_two_names (?vars ! j)))"
    by (elim exE conjE)
  from p have pairs: "pairs = [(''2010'', ''1''), (''2010'', ''2'')]"
    by (simp only: test_two_months_pairs sum.inject)
  have n1: "the (test_two_names ''air_temperature'') = ''2m_temperature''"
    and n2: "the (test_two_names ''dewpoint_temperature'') = ''2m_dewpoint_temperature''"
    by (simp_all add: test_two_names_def)
  have len: "length ?R = 4" using l pairs by simp
  have x0: "?R ! 0 = ?req ''2010'' ''1'' ''2m_temperature''"
    using idx [rule_format, of 0 0] pairs n1 by simp
  have x1: "?R ! 1 = ?req ''2010'' ''1'' ''2m_dewpoint_temperature''"
    using idx [rule_format, of 0 1] pairs n2 by (simp add: numeral_2_eq_2 numeral_3_eq_3)
  have x2: "?R ! 2 = ?req ''2010'' ''2'' ''2m_temperature''"
    using idx [rule_format, of 1 0] pairs n1 by (simp add: numeral_2_eq_2 numeral_3_eq_3)
  have x3: "?R ! 3 = ?req ''2010'' ''2'' ''2m_dewpoint_temperature''"
    using idx [rule_format, of 1 1] pairs n2 by (simp add: numeral_2_eq_2 numeral_3_eq_3)
  have "?R = [?R ! 0, ?R ! 1, ?R ! 2, ?R ! 3]" using len by (rule list_of_four)
  then have R: "?R = [?req ''2010'' ''1'' ''2m_temperature'',
      ?req ''2010'' ''1'' ''2m_dewpoint_temperature'',
      ?req ''2010'' ''2'' ''2m_temperature'',
      ?req ''2010'' ''2'' ''2m_dewpoint_temperature'']"
    by (simp only: x0 x1 x2 x3)
  have m: "map (\<lambda>(d, r). (map_of r ''year'', map_of r ''month'', map_of r ''variable'')) ?R
      = [(Some (Str ''2010''), Some (Str ''1''), Some (StrList [''2m_temperature''])),
         (Some (Str ''2010''), Some (Str ''1''), Some (StrList [''2m_dewpoint_temperature''])),
         (Some (Str ''2010''), Some (Str ''2''), Some (StrList [''2m_temperature''])),
         (Some (Str ''2010''), Some (Str ''2''), Some (StrList [''2m_dewpoint_temperature'']))]"
    by (subst R) simp
  have fA: "fst (cds_request (test_server 3) ''reanalysis-era5-land'' ?vars test_two_months
      test_bbox ''a'' test_two_names True test_world) = Inr ()"
    by (subst rA) simp
  have fB: "fst (cds_request (test_server 0) ''reanalysis-era5-land'' ?vars test_two_months
      test_bbox ''b'' test_two_names False test_world) = Inr ()"
    by (subst rB) simp
  show ?thesis by (intro conjI fA fB e m)
qed

section \<open>The scenario of the test suite\<close>

text \<open>
  Claim C2, as amended. For the time bounds 2010-01-01 to 2010-01-31, a single variable
  with a code in \<open>cds_var_names\<close> and the box \<open>SpatialBounds(54, 56, 1, 3)\<close>, that is north
  54, east 56, south 1, west 3, \<open>cds_request\<close> with a known dataset name and a readable
  configuration file issues exactly one retrieval request; it has year "2010", month
  "1", the fixed days "01" to "31" and hours "00:00" to "23:00", the area
  [54, 3, 1, 56], which is north, west, south, east, and the format "netcdf".
\<close>

theorem cds_request_test_scenario:
  assumes "map_of PRODUCT_FNAME dataset = Some fname"
    and "read_config w = Inr c"
    and "names v = Some code"
  shows "retrievals (issued w
           (snd (cds_request srv dataset [v] test_times (SpatialBounds_init 54 56 1 3)
                   pth names ow w)))
         = [(dataset,
             [(''product_type'', Str ''reanalysis''),
              (''variable'', StrList [code]),
              (''year'', Str ''2010''),
              (''month'', Str ''1''),
              (''day'', StrList all_days),
              (''time'', StrList all_hours),
              (''area'', NumList [54, 3, 1, 56]),
              (''format'', Str ''netcdf'')])]"
proof -
  let ?sb = "SpatialBounds_init 54 56 1 3"
  let ?w' = "snd (cds_item srv c dataset fname ?sb pth names ow ((''2010'', ''1''), v) w)"
  have run: "snd (cds_request srv dataset [v] test_times ?sb pth names ow w) = ?w'"
    using assms(1,2)
    by (simp add: cds_request_def test_times_pairs split: prod.split sum.split)
  obtain evs where evs: "calls ?w' = calls w @ evs"
      "retrievals evs = [(dataset, mk_request code ''2010'' ''1'' ?sb)]"
    using cds_item_requests [where names = names, OF assms(3)] by blast
  have "issued w ?w' = evs" using evs(1) by (rule issued_append)
  then show ?thesis
    using evs(2) run by (simp add: mk_request_def SpatialBounds_init_def)
qed

theorem cds_request_test_scenario_witness:
  "map_of PRODUCT_FNAME ''reanalysis-era5-land'' = Some ''era5-land''
   \<and> read_config test_world = Inr \<lparr>url = ''a'', key = ''123:abc-def''\<rparr>
   \<and> test_names ''2m_dewpoint_temperature'' = Some ''2m_dewpoint_temperature''
   \<and> retrievals (issued test_world
        (snd (cds_request (test_server 3) ''reanalysis-era5-land'' [''2m_dewpoint_temperature'']
                test_times (SpatialBounds_init 54 56 1 3) ''download/era5-land'' test_names
                True test_world)))
      = [(''reanalysis-era5-land'',
          [(''product_type'', Str ''reanalysis''),
           (''variable'', StrList [''2m_dewpoint_temperature'']),
           (''year'', Str ''2010''),
           (''month'', Str ''1''),
           (''day'', StrList all_days),
           (''time'', StrList all_hours),
           (''area'', NumList [54, 3, 1, 56]),
           (''format'', Str ''netcdf'')])]"
proof -
  have a: "map_of PRODUCT_FNAME ''reanalysis-era5-land'' = Some ''era5-land''"
    by (simp add: PRODUCT_FNAME_def)
  have n: "test_names ''2m_dewpoint_temperature'' = Some ''2m_dewpoint_temperature''"
    by (simp add: test_names_def)
  show ?thesis
    using cds_request_test_scenario [where names = test_names, OF a test_config_read n] a n
      test_config_read
    by simp
qed

text \<open>
  The claim as first stated has the area [54, 56, 1, 3]. It does not hold: on the inputs
  of the test suite the one request issued carries the area [54, 3, 1, 56].
\<close>

theorem cds_request_test_scenario_area:
  "retrievals (issued test_world
        (snd (cds_request (test_server 3) ''reanalysis-era5-land'' [''2m_dewpoint_temperature'']
                test_times (SpatialBounds_init 54 56 1 3) ''download/era5-land'' test_names
                True test_world)))
      = [(''reanalysis-era5-land'',
          mk_request ''2m_dewpoint_temperature'' ''2010'' ''1'' (SpatialBounds_init 54 56 1 3))]
   \<and> map_of (mk_request ''2m_dewpoint_temperature'' ''2010'' ''1''
               (SpatialBounds_init 54 56 1 3)) ''area''
      = Some (NumList [54, 3, 1, 56])
   \<and> map_of (mk_request ''2m_dewpoint_temperature'' ''2010'' ''1''
               (SpatialBounds_init 54 56 1 3)) ''area''
      \<noteq> Some (NumList [54, 56, 1, 3])"
proof -
  have "calls (snd (cds_request (test_server 3) ''reanalysis-era5-land''
          [''2m_dewpoint_temperature''] test_times test_bbox ''download/era5-land'' test_names
          True test_world)) =
     [Retrieve ''reanalysis-era5-land''
        (mk_request ''2m_dewpoint_temperature'' ''2010'' ''1'' test_bbox),
      Download (path_join ''download/era5-land'' ''era5-land_2m_dewpoint_temperature_2010-1.nc'')]"
    by (rule test_run_calls)
  then have "retrievals (issued test_world
        (snd (cds_request (test_server 3) ''reanalysis-era5-land'' [''2m_dewpoint_temperature'']
                test_times test_bbox ''download/era5-land'' test_names True test_world)))
      = [(''reanalysis-era5-land'',
          mk_request ''2m_dewpoint_temperature'' ''2010'' ''1'' test_bbox)]"
    by (simp add: issued_def test_world_def)
  then show ?thesis
    by (simp add: test_bbox_def mk_request_def SpatialBounds_init_def)
qed


section \<open>Validation comes first, and errors are not swallowed\<close>

lemma validate_outside_envelope:
  assumes "\<not> within_envelope dataset tb sb vars"
  shows "\<exists>msg. validate_download_request dataset dir tb sb vars = Inl (ValidationError msg)"
  using assms by (auto simp: validate_download_request_def within_envelope_def)

lemma validate_Inr_iff:
  "validate_download_request dataset dir tb sb vars = Inr u \<longleftrightarrow>
     within_envelope dataset tb sb vars"
  by (simp add: validate_download_request_def within_envelope_def)

text \<open>
  The call in \<open>ERA5_download\<close> names a keyword \<open>product\<close>, which \<open>cds_request\<close> does
  not declare, and gives no \<open>dataset\<close> and no \<open>cds_var_names\<close>: the binding fails
  before the body of \<open>cds_request\<close> runs.
\<close>

lemma ERA5_download_call_fails:
  "call_cds_request srv
     [(''product'', AStr ''reanalysis-era5-single-levels''),
      (''variables'', AStrList variable_names),
      (''time_bounds'', ATimeBounds time_bounds),
      (''spatial_bounds'', ASpatialBounds spatial_bounds),
      (''path'', AStr download_folder),
      (''overwrite'', ABool overwrite)] w
   = (Inl (TypeError ''unexpected keyword argument product''), w)"
  by (simp add: call_cds_request_def bind_keywords_def cds_request_params_def)

lemma ERA5_download_never_succeeds:
  "fst (ERA5_download srv dir tb sb vars ow w) \<noteq> Inr b"
  by (simp add: ERA5_download_def ERA5_download_call_fails Let_def
      split: sum.split prod.split)

lemma call_cds_request_well_formed:
  "call_cds_request srv
     [(''dataset'', AStr dataset),
      (''variables'', AStrList variables),
      (''time_bounds'', ATimeBounds tb),
      (''spatial_bounds'', ASpatialBounds sb),
      (''path'', AStr pth),
      (''cds_var_names'', ADict names),
      (''overwrite'', ABool ow)] w
   = cds_request srv dataset variables tb sb pth names ow w"
  by (simp add: call_cds_request_def bind_keywords_def cds_request_params_def)

lemma ERA5_download_as_download_with:
  "ERA5_download srv dir tb sb vars ow w =
     download_with ERA5
       (\<lambda>folder. call_cds_request srv
          [(''product'', AStr ''reanalysis-era5-single-levels''),
           (''variables'', AStrList vars),
           (''time_bounds'', ATimeBounds tb),
           (''spatial_bounds'', ASpatialBounds sb),
           (''path'', AStr folder),
           (''overwrite'', ABool ow)])
       dir tb sb vars w"
  by (simp add: ERA5_download_def download_with_def)

lemma download_with_invalid:
  assumes "\<not> within_envelope dataset tb sb vars"
  shows "\<exists>msg. download_with dataset r dir tb sb vars w = (Inl (ValidationError msg), w)"
proof -
  from validate_outside_envelope [OF assms] obtain msg where
    "validate_download_request dataset dir tb sb vars = Inl (ValidationError msg)" by blast
  then have "download_with dataset r dir tb sb vars w = (Inl (ValidationError msg), w)"
    by (simp add: download_with_def)
  then show ?thesis by blast
qed

lemma download_with_Inr:
  assumes "download_with dataset r dir tb sb vars w = (Inr b, w')"
  shows "within_envelope dataset tb sb vars \<and> b = True
         \<and> (\<exists>w1 w2. mkdir (path_join dir (ds_name dataset)) w = (Inr (), w1)
               \<and> r (path_join dir (ds_name dataset)) w1 = (Inr (), w2)
               \<and> w' = write_properties_file (path_join dir (ds_name dataset)) sb tb vars w2)"
proof -
  from assms obtain u where v: "validate_download_request dataset dir tb sb vars = Inr u"
    by (cases "validate_download_request dataset dir tb sb vars")
      (simp_all add: download_with_def)
  then have e: "within_envelope dataset tb sb vars" by (simp only: validate_Inr_iff)
  obtain r1 w1 where m: "mkdir (path_join dir (ds_name dataset)) w = (r1, w1)"
    by (metis surj_pair)
  obtain r2 w2 where c: "r (path_join dir (ds_name dataset)) w1 = (r2, w2)"
    by (metis surj_pair)
  from assms v m have r1: "r1 = Inr ()"
    by (cases r1) (simp_all add: download_with_def Let_def)
  from assms v m c r1 have r2: "r2 = Inr ()"
    by (cases r2) (simp_all add: download_with_def Let_def)
  from assms v m c r1 r2 have
    "b = True \<and> w' = write_properties_file (path_join dir (ds_name dataset)) sb tb vars w2"
    by (auto simp: download_with_def Let_def)
  with e m c r1 r2 show ?thesis by blast
qed

lemma download_with_retrieval_error:
  assumes "within_envelope dataset tb sb vars"
    and "mkdir (path_join dir (ds_name dataset)) w = (Inr (), w1)"
    and "r (path_join dir (ds_name dataset)) w1 = (Inl e, w2)"
  shows "download_with dataset r dir tb sb vars w = (Inl e, w2)"
proof -
  from assms(1) have "validate_download_request dataset dir tb sb vars = Inr ()"
    by (simp only: validate_Inr_iff)
  then show ?thesis using assms(2,3) by (simp add: download_with_def Let_def)
qed

lemma for_each_error_at:
  assumes "for_each body done s = (Inr (), s1)" and "body x s1 = (Inl e, s2)"
  shows "for_each body (done @ x # rest) s = (Inl e, s2)"
  using assms(1)
proof (induction "done" arbitrary: s)
  case Nil
  then show ?case using assms(2) by simp
next
  case (Cons a as)
  obtain ra sa where a: "body a s = (ra, sa)" by (metis surj_pair)
  from Cons.prems a have ra: "ra = Inr ()" by (cases ra) simp_all
  from Cons.prems a ra have "for_each body as sa = (Inr (), s1)" by simp
  from Cons.IH [OF this] show ?case using a ra by simp
qed

lemma properties_for_each:
  assumes "\<And>x s. properties (snd (body x s)) = properties s"
  shows "properties (snd (for_each body xs s)) = properties s"
proof (induction xs arbitrary: s)
  case Nil
  then show ?case by simp
next
  case (Cons x xs)
  obtain rx sx where x: "body x s = (rx, sx)" by (metis surj_pair)
  from assms [of x s] x have p: "properties sx = properties s" by simp
  show ?case
  proof (cases rx)
    case (Inl e)
    with x p show ?thesis by simp
  next
    case (Inr u)
    with x p Cons.IH [of sx] show ?thesis by simp
  qed
qed

lemma properties_cds_item:
  "properties (snd (cds_item srv c dataset fname sb pth names ow item w)) = properties w"
  by (cases item) (auto simp: cds_item_def Let_def split: option.splits sum.splits prod.splits)

lemma properties_mkdir: "properties (snd (mkdir p w)) = properties w"
  by (simp add: mkdir_def)

lemma cds_request_loop:
  assumes "map_of PRODUCT_FNAME dataset = Some fname"
    and "read_config w = Inr c"
    and "time_bounds_to_year_month tb = Inr pairs"
  shows "cds_request srv dataset variables tb sb pth names ow w =
           for_each (cds_item srv c dataset fname sb pth names ow)
             (List.product pairs variables) w"
  using assms by (simp add: cds_request_def)

lemma cds_item_failure:
  assumes "names v = None \<and> e = KeyError v
      \<or> (\<exists>code. names v = Some code
            \<and> srv c (calls w) dataset (mk_request code y m sb) = Inl e)
      \<or> (\<exists>code r. names v = Some code
            \<and> srv c (calls w) dataset (mk_request code y m sb) = Inr r
            \<and> (get_file_size w (path_join pth (fname @ ''_'' @ v @ ''_'' @ y @ ''-'' @ m @ ''.nc''))
                  \<noteq> content_length r \<or> ow)
            \<and> download_result r = Inl e)"
  shows "fst (cds_item srv c dataset fname sb pth names ow ((y, m), v) w) = Inl e"
  using assms
proof (elim disjE)
  assume "names v = None \<and> e = KeyError v"
  then show ?thesis by (simp add: cds_item_def)
next
  assume "\<exists>code. names v = Some code
            \<and> srv c (calls w) dataset (mk_request code y m sb) = Inl e"
  then obtain code where "names v = Some code"
      "srv c (calls w) dataset (mk_request code y m sb) = Inl e"
    by (elim exE conjE)
  then show ?thesis by (simp add: cds_item_def Let_def)
next
  assume "\<exists>code r. names v = Some code
            \<and> srv c (calls w) dataset (mk_request code y m sb) = Inr r
            \<and> (get_file_size w (path_join pth (fname @ ''_'' @ v @ ''_'' @ y @ ''-'' @ m @ ''.nc''))
                  \<noteq> content_length r \<or> ow)
            \<and> download_result r = Inl e"
  then obtain code r where dl: "names v = Some code"
      "srv c (calls w) dataset (mk_request code y m sb) = Inr r"
      "get_file_size w (path_join pth (fname @ ''_'' @ v @ ''_'' @ y @ ''-'' @ m @ ''.nc''))
         \<noteq> content_length r \<or> ow"
      "download_result r = Inl e"
    by (elim exE conjE)
  note i = cds_item_served [where names = names and srv = srv and fname = fname
      and pth = pth and ow = ow, OF dl(1,2)]
  from dl(3,4) show ?thesis by (simp only: i) auto
qed

text \<open>
  Claim C8. A download whose variable names, time range or bounds fall outside the
  envelope the ERA5 class declares ends in a validation error, with the outside world
  exactly as it was: no call to the archive, no directory, no file. \<open>ERA5_download\<close> is
  the sequence of steps \<open>download_with\<close> around the call of \<open>cds_request\<close> that the source
  writes, and \<open>cds_request\<close> is what a call with the keywords it declares runs. Whatever
  the retrieval step, \<open>download_with\<close> returns success only when the request is inside
  the envelope, the folder was made and the retrieval step returned without an error, and
  only then writes the properties record. With \<open>cds_request\<close> as the retrieval step, an
  error at any item of the loop, after any number of items that went well, is the result
  of the download and no properties record is written: a variable without a code, a
  request the server rejects, a download that fails. The call that \<open>ERA5_download\<close> itself
  makes names a keyword that \<open>cds_request\<close> does not declare: inside the envelope, once
  the folder is made, the download ends in that TypeError, and nothing more is done.
\<close>

theorem ERA5_download_errors_propagate:
  "(\<not> within_envelope ERA5 tb sb vars \<longrightarrow>
      (\<exists>msg. ERA5_download srv dir tb sb vars ow w = (Inl (ValidationError msg), w)))
   \<and> ERA5_download srv dir tb sb vars ow w =
       download_with ERA5
         (\<lambda>folder. call_cds_request srv
            [(''product'', AStr ''reanalysis-era5-single-levels''),
             (''variables'', AStrList vars),
             (''time_bounds'', ATimeBounds tb),
             (''spatial_bounds'', ASpatialBounds sb),
             (''path'', AStr folder),
             (''overwrite'', ABool ow)])
         dir tb sb vars w
   \<and> call_cds_request srv
         [(''dataset'', AStr dataset),
          (''variables'', AStrList vars),
          (''time_bounds'', ATimeBounds tb),
          (''spatial_bounds'', ASpatialBounds sb),
          (''path'', AStr pth),
          (''cds_var_names'', ADict names),
          (''overwrite'', ABool ow)] w
       = cds_request srv dataset vars tb sb pth names ow w
   \<and> (\<not> within_envelope ERA5 tb sb vars \<longrightarrow>
        (\<exists>msg. download_with ERA5 step dir tb sb vars w = (Inl (ValidationError msg), w)))
   \<and> (download_with ERA5 step dir tb sb vars w = (Inr b, w') \<longrightarrow>
        within_envelope ERA5 tb sb vars \<and> b = True
        \<and> (\<exists>w1 w2. mkdir (path_join dir (ds_name ERA5)) w = (Inr (), w1)
              \<and> step (path_join dir (ds_name ERA5)) w1 = (Inr (), w2)
              \<and> w' = write_properties_file (path_join dir (ds_name ERA5)) sb tb vars w2))
   \<and> (within_envelope ERA5 tb sb vars
       \<and> mkdir (path_join dir (ds_name ERA5)) w = (Inr (), wa)
       \<and> map_of PRODUCT_FNAME dataset = Some fname
       \<and> read_config wa = Inr c
       \<and> time_bounds_to_year_month tb = Inr pairs
       \<and> List.product pairs vars = before @ ((y, m), v) # rest
       \<and> for_each (cds_item srv c dataset fname sb (path_join dir (ds_name ERA5)) names ow)
            before wa = (Inr (), wb)
       \<and> (names v = None \<and> e = KeyError v
          \<or> (\<exists>code. names v = Some code
                \<and> srv c (calls wb) dataset (mk_request code y m sb) = Inl e)
          \<or> (\<exists>code r. names v = Some code
                \<and> srv c (calls wb) dataset (mk_request code y m sb) = Inr r
                \<and> (get_file_size wb
                      (path_join (path_join dir (ds_name ERA5))
                         (fname @ ''_'' @ v @ ''_'' @ y @ ''-'' @ m @ ''.nc''))
                      \<noteq> content_length r \<or> ow)
                \<and> download_result r = Inl e))
       \<longrightarrow>
         fst (download_with ERA5
                (\<lambda>folder. cds_request srv dataset vars tb sb folder names ow)
                dir tb sb vars w) = Inl e
         \<and> properties (snd (download_with ERA5
                (\<lambda>folder. cds_request srv dataset vars tb sb folder names ow)
                dir tb sb vars w)) = properties w)
   \<and> (within_envelope ERA5 tb sb vars
       \<and> mkdir (path_join dir (ds_name ERA5)) w = (Inr (), wa)
       \<longrightarrow>
         ERA5_download srv dir tb sb vars ow w =
           (Inl (TypeError ''unexpected keyword argument product''), wa))"
proof -
  have c1: "\<not> within_envelope ERA5 tb sb vars \<longrightarrow>
      (\<exists>msg. ERA5_download srv dir tb sb vars ow w = (Inl (ValidationError msg), w))"
    unfolding ERA5_download_as_download_with by (rule impI) (rule download_with_invalid)
  have c2: "ERA5_download srv dir tb sb vars ow w =
       download_with ERA5
         (\<lambda>folder. call_cds_request srv
            [(''product'', AStr ''reanalysis-era5-single-levels''),
             (''variables'', AStrList vars),
             (''time_bounds'', ATimeBounds tb),
             (''spatial_bounds'', ASpatialBounds sb),
             (''path'', AStr folder),
             (''overwrite'', ABool ow)])
         dir tb sb vars w"
    by (rule ERA5_download_as_download_with)
  have c3: "call_cds_request srv
         [(''dataset'', AStr dataset),
          (''variables'', AStrList vars),
          (''time_bounds'', ATimeBounds tb),
          (''spatial_bounds'', ASpatialBounds sb),
          (''path'', AStr pth),
          (''cds_var_names'', ADict names),
          (''overwrite'', ABool ow)] w
       = cds_request srv dataset vars tb sb pth names ow w"
    by (rule call_cds_request_well_formed)
  have c4: "\<not> within_envelope ERA5 tb sb vars \<longrightarrow>
        (\<exists>msg. download_with ERA5 step dir tb sb vars w = (Inl (ValidationError msg), w))"
    by (rule impI) (rule download_with_invalid)
  have c5: "download_with ERA5 step dir tb sb vars w = (Inr b, w') \<longrightarrow>
        within_envelope ERA5 tb sb vars \<and> b = True
        \<and> (\<exists>w1 w2. mkdir (path_join dir (ds_name ERA5)) w = (Inr (), w1)
              \<and> step (path_join dir (ds_name ERA5)) w1 = (Inr (), w2)
              \<and> w' = write_properties_file (path_join dir (ds_name ERA5)) sb tb vars w2)"
    by (rule impI) (rule download_with_Inr)
  let ?folder = "path_join dir (ds_name ERA5)"
  let ?body = "cds_item srv c dataset fname sb ?folder names ow"
  let ?down = "download_with ERA5
      (\<lambda>folder. cds_request srv dataset vars tb sb folder names ow) dir tb sb vars w"
  have c6: "within_envelope ERA5 tb sb vars
       \<and> mkdir ?folder w = (Inr (), wa)
       \<and> map_of PRODUCT_FNAME dataset = Some fname
       \<and> read_config wa = Inr c
       \<and> time_bounds_to_year_month tb = Inr pairs
       \<and> List.product pairs vars = before @ ((y, m), v) # rest
       \<and> for_each ?body before wa = (Inr (), wb)
       \<and> (names v = None \<and> e = KeyError v
          \<or> (\<exists>code. names v = Some code
                \<and> srv c (calls wb) dataset (mk_request code y m sb) = Inl e)
          \<or> (\<exists>code r. names v = Some code
                \<and> srv c (calls wb) dataset (mk_request code y m sb) = Inr r
                \<and> (get_file_size wb
                      (path_join ?folder (fname @ ''_'' @ v @ ''_'' @ y @ ''-'' @ m @ ''.nc''))
                      \<noteq> content_length r \<or> ow)
                \<and> download_result r = Inl e))
       \<longrightarrow> fst ?down = Inl e \<and> properties (snd ?down) = properties w"
  proof (rule impI)
    assume a: "within_envelope ERA5 tb sb vars
         \<and> mkdir ?folder w = (Inr (), wa)
         \<and> map_of PRODUCT_FNAME dataset = Some fname
         \<and> read_config wa = Inr c
         \<and> time_bounds_to_year_month tb = Inr pairs
         \<and> List.product pairs vars = before @ ((y, m), v) # rest
         \<and> for_each ?body before wa = (Inr (), wb)
         \<and> (names v = None \<and> e = KeyError v
            \<or> (\<exists>code. names v = Some code
                  \<and> srv c (calls wb) dataset (mk_request code y m sb) = Inl e)
            \<or> (\<exists>code r. names v = Some code
                  \<and> srv c (calls wb) dataset (mk_request code y m sb) = Inr r
                  \<and> (get_file_size wb
                        (path_join ?folder (fname @ ''_'' @ v @ ''_'' @ y @ ''-'' @ m @ ''.nc''))
                        \<noteq> content_length r \<or> ow)
                  \<and> download_result r = Inl e))"
    then have env: "within_envelope ERA5 tb sb vars"
      and mk: "mkdir ?folder w = (Inr (), wa)"
      and fn: "map_of PRODUCT_FNAME dataset = Some fname"
      and cf: "read_config wa = Inr c"
      and ps: "time_bounds_to_year_month tb = Inr pairs"
      and sp: "List.product pairs vars = before @ ((y, m), v) # rest"
      and bf: "for_each ?body before wa = (Inr (), wb)"
      and fl: "names v = None \<and> e = KeyError v
            \<or> (\<exists>code. names v = Some code
                  \<and> srv c (calls wb) dataset (mk_request code y m sb) = Inl e)
            \<or> (\<exists>code r. names v = Some code
                  \<and> srv c (calls wb) dataset (mk_request code y m sb) = Inr r
                  \<and> (get_file_size wb
                        (path_join ?folder (fname @ ''_'' @ v @ ''_'' @ y @ ''-'' @ m @ ''.nc''))
                        \<noteq> content_length r \<or> ow)
                  \<and> download_result r = Inl e)"
      by simp_all
    have "fst (?body ((y, m), v) wb) = Inl e" using fl by (rule cds_item_failure)
    then have it: "?body ((y, m), v) wb = (Inl e, snd (?body ((y, m), v) wb))"
      by (rule fst_snd_eq)
    have "cds_request srv dataset vars tb sb ?folder names ow wa =
        for_each ?body (before @ ((y, m), v) # rest) wa"
      using cds_request_loop [OF fn cf ps] by (simp only: sp)
    also have "\<dots> = (Inl e, snd (?body ((y, m), v) wb))"
      using bf it by (rule for_each_error_at)
    finally have rq: "cds_request srv dataset vars tb sb ?folder names ow wa =
        (Inl e, snd (?body ((y, m), v) wb))" .
    have dw: "?down = (Inl e, snd (?body ((y, m), v) wb))"
      using env mk rq by (rule download_with_retrieval_error)
    have "properties (snd (?body ((y, m), v) wb)) = properties wb"
      by (rule properties_cds_item)
    also have "properties wb = properties (snd (for_each ?body before wa))"
      by (simp add: bf)
    also have "\<dots> = properties wa"
      by (rule properties_for_each) (rule properties_cds_item)
    also have "\<dots> = properties (snd (mkdir ?folder w))" by (simp add: mk)
    also have "\<dots> = properties w" by (rule properties_mkdir)
    finally have pr: "properties (snd (?body ((y, m), v) wb)) = properties w" .
    show "fst ?down = Inl e \<and> properties (snd ?down) = properties w"
      using dw pr by simp
  qed
  have c7: "within_envelope ERA5 tb sb vars
       \<and> mkdir ?folder w = (Inr (), wa)
       \<longrightarrow>
         ERA5_download srv dir tb sb vars ow w =
           (Inl (TypeError ''unexpected keyword argument product''), wa)"
  proof (rule impI)
    assume "within_envelope ERA5 tb sb vars \<and> mkdir ?folder w = (Inr (), wa)"
    then have env: "within_envelope ERA5 tb sb vars"
      and mk: "mkdir ?folder w = (Inr (), wa)"
      by simp_all
    show "ERA5_download srv dir tb sb vars ow w =
        (Inl (TypeError ''unexpected keyword argument product''), wa)"
      unfolding ERA5_download_as_download_with
      using env mk ERA5_download_call_fails by (rule download_with_retrieval_error)
  qed
  show ?thesis
    by (rule conjI [OF c1 conjI [OF c2 conjI [OF c3 conjI [OF c4 conjI [OF c5
          conjI [OF c6 c7]]]]]])
qed

lemma download_with_retrieval_ok:
  assumes "within_envelope dataset tb sb vars"
    and "mkdir (path_join dir (ds_name dataset)) w = (Inr (), w1)"
    and "r (path_join dir (ds_name dataset)) w1 = (Inr (), w2)"
  shows "download_with dataset r dir tb sb vars w =
    (Inr True, write_properties_file (path_join dir (ds_name dataset)) sb tb vars w2)"
proof -
  from assms(1) have "validate_download_request dataset dir tb sb vars = Inr ()"
    by (simp only: validate_Inr_iff)
  then show ?thesis using assms(2,3) by (simp add: download_with_def Let_def)
qed

text \<open>The test inputs against the envelope of the ERA5 class, and the first steps on them.\<close>

lemma test_era5_not_recognized:
  "\<not> within_envelope ERA5 test_times test_bbox [''2m_dewpoint_temperature'']"
  by (simp add: within_envelope_def variables_recognized_def ERA5_def)

lemma test_era5_space: "space_within ERA5 test_bbox"
  by (simp add: space_within_def ERA5_def test_bbox_def SpatialBounds_init_def)

lemma test_era5_time: "time_within ERA5 test_times"
  by (simp add: time_within_def ERA5_def test_times_def ts_le_def date_less_def date_le_def)

lemma test_era5_two_months: "time_within ERA5 test_two_months"
  by (simp add: time_within_def ERA5_def test_two_months_def ts_le_def date_less_def date_le_def)

lemma test_era5_within:
  "within_envelope ERA5 test_times test_bbox [''surface_pressure'']"
  "within_envelope ERA5 test_times test_bbox [''surface_pressure'', ''10m_u_component_of_wind'']"
  "within_envelope ERA5 test_two_months test_bbox [''surface_pressure'']"
  by (simp_all add: within_envelope_def test_era5_space test_era5_time test_era5_two_months)
    (simp_all add: variables_recognized_def ERA5_def)

lemma test_mkdir:
  "mkdir (path_join ''download'' (ds_name ERA5)) test_world = (Inr (), test_made)"
  by (simp add: mkdir_def path_join_def ERA5_def test_world_def test_made_def
      CDSAPI_CONFIG_PATH_def)

lemma test_made_config: "read_config test_made = Inr \<lparr>url = ''a'', key = ''123:abc-def''\<rparr>"
  by (simp add: read_config_def test_made_def test_world_def test_config_def readline_def
      newline_def after_colon_def strip_def is_space_def)

lemma test_era5_fname: "map_of PRODUCT_FNAME ''reanalysis-era5-single-levels'' = Some ''era5''"
  by (simp add: PRODUCT_FNAME_def)

lemma test_era5_run:
  "cds_request (test_server n) ''reanalysis-era5-single-levels'' [''surface_pressure'']
      test_times test_bbox pth test_era5_names ow test_made
   = (Inr (), snd (cds_request (test_server n) ''reanalysis-era5-single-levels''
      [''surface_pressure''] test_times test_bbox pth test_era5_names ow test_made))"
proof (rule fst_snd_eq)
  have a: "list_all (\<lambda>item. test_era5_names (snd item) \<noteq> None)
      (List.product [(''2010'', ''1'')] [''surface_pressure''])"
    by (simp add: test_era5_names_def)
  have "fst (for_each
      (cds_item (test_server n) \<lparr>url = ''a'', key = ''123:abc-def''\<rparr>
         ''reanalysis-era5-single-levels'' ''era5'' test_bbox pth test_era5_names ow)
      (List.product [(''2010'', ''1'')] [''surface_pressure'']) test_made) = Inr ()"
    using a test_server_answers by (rule for_each_cds_item_total)
  then show "fst (cds_request (test_server n) ''reanalysis-era5-single-levels''
      [''surface_pressure''] test_times test_bbox pth test_era5_names ow test_made) = Inr ()"
    by (simp only: cds_request_loop [OF test_era5_fname test_made_config test_times_pairs])
qed

lemma test_era5_first_item:
  "for_each
     (cds_item (test_server n) \<lparr>url = ''a'', key = ''123:abc-def''\<rparr>
        ''reanalysis-era5-single-levels'' ''era5'' test_bbox pth test_era5_names ow)
     [((''2010'', ''1''), ''surface_pressure'')] test_made
   = (Inr (), snd (for_each
     (cds_item (test_server n) \<lparr>url = ''a'', key = ''123:abc-def''\<rparr>
        ''reanalysis-era5-single-levels'' ''era5'' test_bbox pth test_era5_names ow)
     [((''2010'', ''1''), ''surface_pressure'')] test_made))"
proof (rule fst_snd_eq)
  have a: "list_all (\<lambda>item. test_era5_names (snd item) \<noteq> None)
      [((''2010'', ''1''), ''surface_pressure'')]"
    by (simp add: test_era5_names_def)
  show "fst (for_each
      (cds_item (test_server n) \<lparr>url = ''a'', key = ''123:abc-def''\<rparr>
         ''reanalysis-era5-single-levels'' ''era5'' test_bbox pth test_era5_names ow)
      [((''2010'', ''1''), ''surface_pressure'')] test_made) = Inr ()"
    using a test_server_answers by (rule for_each_cds_item_total)
qed

lemma test_once_first_item:
  "\<exists>wb. for_each
     (cds_item test_server_once c dataset fname sb pth test_era5_names True)
     [((y, m), ''surface_pressure'')] test_made = (Inr (), wb) \<and> calls wb \<noteq> []"
proof -
  have n: "test_era5_names ''surface_pressure'' = Some ''surface_pressure''"
    by (simp add: test_era5_names_def)
  have s: "test_server_once c (calls test_made) dataset (mk_request ''surface_pressure'' y m sb)
      = Inr \<lparr>content_length = 3, download_result = Inr ''xxx''\<rparr>"
    by (simp add: test_server_once_def test_made_def test_world_def)
  show ?thesis
    unfolding for_each.simps
      cds_item_served [where names = test_era5_names and srv = test_server_once, OF n s]
    by simp
qed

text \<open>
  The theorem at the inputs of the test suite. The variable of the ERA5-Land test is not
  one of the ERA5 class: the download ends in a validation error and the world is
  untouched. A download of one month of \<open>surface_pressure\<close> through \<open>cds_request\<close>
  succeeds and writes the properties record. Three downloads inside the envelope fail and
  write no record: the server rejects the request of the second month after serving the
  first, the second variable has no code, the transfer of the first file fails.
  \<open>ERA5_download\<close> on a request inside the envelope makes the folder and ends in the
  TypeError.
\<close>

theorem ERA5_download_errors_propagate_witness:
  "(\<not> within_envelope ERA5 test_times test_bbox [''2m_dewpoint_temperature'']
   \<and> (\<exists>msg. ERA5_download (test_server 3) ''download'' test_times test_bbox
          [''2m_dewpoint_temperature''] True test_world = (Inl (ValidationError msg), test_world)))
   \<and> (fst (download_with ERA5
          (\<lambda>folder. cds_request (test_server 3) ''reanalysis-era5-single-levels''
             [''surface_pressure''] test_times test_bbox folder test_era5_names True)
          ''download'' test_times test_bbox [''surface_pressure''] test_world) = Inr True
   \<and> properties (snd (download_with ERA5
          (\<lambda>folder. cds_request (test_server 3) ''reanalysis-era5-single-levels''
             [''surface_pressure''] test_times test_bbox folder test_era5_names True)
          ''download'' test_times test_bbox [''surface_pressure''] test_world))
        ''download/era5/properties.json''
      = Some \<lparr>prop_spatial_bounds = test_bbox, prop_time_bounds = test_times,
            prop_variable_names = [''surface_pressure'']\<rparr>)
   \<and> (fst (download_with ERA5
          (\<lambda>folder. cds_request test_server_once ''reanalysis-era5-single-levels''
             [''surface_pressure''] test_two_months test_bbox folder test_era5_names True)
          ''download'' test_two_months test_bbox [''surface_pressure''] test_world) = Inl (RemoteError ''rejected'')
   \<and> properties (snd (download_with ERA5
          (\<lambda>folder. cds_request test_server_once ''reanalysis-era5-single-levels''
             [''surface_pressure''] test_two_months test_bbox folder test_era5_names True)
          ''download'' test_two_months test_bbox [''surface_pressure''] test_world)) = properties test_world)
   \<and> (fst (download_with ERA5
          (\<lambda>folder. cds_request (test_server 3) ''reanalysis-era5-single-levels''
             [''surface_pressure'', ''10m_u_component_of_wind''] test_times test_bbox folder test_era5_names True)
          ''download'' test_times test_bbox [''surface_pressure'', ''10m_u_component_of_wind''] test_world) = Inl (KeyError ''10m_u_component_of_wind'')
   \<and> properties (snd (download_with ERA5
          (\<lambda>folder. cds_request (test_server 3) ''reanalysis-era5-single-levels''
             [''surface_pressure'', ''10m_u_component_of_wind''] test_times test_bbox folder test_era5_names True)
          ''download'' test_times test_bbox [''surface_pressure'', ''10m_u_component_of_wind''] test_world)) = properties test_world)
   \<and> (fst (download_with ERA5
          (\<lambda>folder. cds_request (\<lambda>c evs d q. Inr \<lparr>content_length = 3, download_result = Inl (RemoteError ''transfer'')\<rparr>) ''reanalysis-era5-single-levels''
             [''surface_pressure''] test_times test_bbox folder test_era5_names True)
          ''download'' test_times test_bbox [''surface_pressure''] test_world) = Inl (RemoteError ''transfer'')
   \<and> properties (snd (download_with ERA5
          (\<lambda>folder. cds_request (\<lambda>c evs d q. Inr \<lparr>content_length = 3, download_result = Inl (RemoteError ''transfer'')\<rparr>) ''reanalysis-era5-single-levels''
             [''surface_pressure''] test_times test_bbox folder test_era5_names True)
          ''download'' test_times test_bbox [''surface_pressure''] test_world)) = properties test_world)
   \<and> ERA5_download (test_server 3) ''download'' test_times test_bbox [''surface_pressure''] True test_world
      = (Inl (TypeError ''unexpected keyword argument product''), test_made)"
proof -
  have p1: "\<not> within_envelope ERA5 test_times test_bbox [''2m_dewpoint_temperature'']
   \<and> (\<exists>msg. ERA5_download (test_server 3) ''download'' test_times test_bbox
          [''2m_dewpoint_temperature''] True test_world = (Inl (ValidationError msg), test_world))"
    by (rule conjI [OF test_era5_not_recognized
          mp [OF ERA5_download_errors_propagate
            [where srv = "test_server 3" and dir = "''download''" and tb = test_times
              and sb = test_bbox and vars = "[''2m_dewpoint_temperature'']" and ow = True
              and w = test_world, THEN conjunct1]
            test_era5_not_recognized]])
  have run: "download_with ERA5
          (\<lambda>folder. cds_request (test_server 3) ''reanalysis-era5-single-levels''
             [''surface_pressure''] test_times test_bbox folder test_era5_names True)
          ''download'' test_times test_bbox [''surface_pressure''] test_world
      = (Inr True, write_properties_file (path_join ''download'' (ds_name ERA5)) test_bbox test_times [''surface_pressure'']
          (snd (cds_request (test_server 3) ''reanalysis-era5-single-levels'' [''surface_pressure''] test_times test_bbox
            (path_join ''download'' (ds_name ERA5)) test_era5_names True test_made)))"
    by (rule download_with_retrieval_ok [where r = "(\<lambda>folder. cds_request (test_server 3) ''reanalysis-era5-single-levels''
             [''surface_pressure''] test_times test_bbox folder test_era5_names True)",
          OF test_era5_within(1) test_mkdir test_era5_run])
  then have run1: "download_with ERA5
          (\<lambda>folder. cds_request (test_server 3) ''reanalysis-era5-single-levels''
             [''surface_pressure''] test_times test_bbox folder test_era5_names True)
          ''download'' test_times test_bbox [''surface_pressure''] test_world
      = (Inr True, snd (download_with ERA5
          (\<lambda>folder. cds_request (test_server 3) ''reanalysis-era5-single-levels''
             [''surface_pressure''] test_times test_bbox folder test_era5_names True)
          ''download'' test_times test_bbox [''surface_pressure''] test_world))"
    by simp
  have "within_envelope ERA5 test_times test_bbox [''surface_pressure''] \<and> True = True
      \<and> (\<exists>w1 w2. mkdir (path_join ''download'' (ds_name ERA5)) test_world = (Inr (), w1)
            \<and> cds_request (test_server 3) ''reanalysis-era5-single-levels'' [''surface_pressure''] test_times test_bbox
                  (path_join ''download'' (ds_name ERA5)) test_era5_names True w1 = (Inr (), w2)
            \<and> snd (download_with ERA5
          (\<lambda>folder. cds_request (test_server 3) ''reanalysis-era5-single-levels''
             [''surface_pressure''] test_times test_bbox folder test_era5_names True)
          ''download'' test_times test_bbox [''surface_pressure''] test_world)
                = write_properties_file (path_join ''download'' (ds_name ERA5)) test_bbox test_times [''surface_pressure''] w2)"
    by (rule mp [OF ERA5_download_errors_propagate
          [where dir = "''download''" and tb = test_times and sb = test_bbox
            and vars = "[''surface_pressure'']" and w = test_world and b = True
            and step = "(\<lambda>folder. cds_request (test_server 3) ''reanalysis-era5-single-levels''
             [''surface_pressure''] test_times test_bbox folder test_era5_names True)"
            and w' = "snd (download_with ERA5
          (\<lambda>folder. cds_request (test_server 3) ''reanalysis-era5-single-levels''
             [''surface_pressure''] test_times test_bbox folder test_era5_names True)
          ''download'' test_times test_bbox [''surface_pressure''] test_world)",
            THEN conjunct2, THEN conjunct2, THEN conjunct2, THEN conjunct2, THEN conjunct1]
          run1])
  then obtain w2 where written: "snd (download_with ERA5
          (\<lambda>folder. cds_request (test_server 3) ''reanalysis-era5-single-levels''
             [''surface_pressure''] test_times test_bbox folder test_era5_names True)
          ''download'' test_times test_bbox [''surface_pressure''] test_world)
                = write_properties_file (path_join ''download'' (ds_name ERA5)) test_bbox test_times [''surface_pressure''] w2"
    by (elim exE conjE)
  have pw: "properties (write_properties_file (path_join ''download'' (ds_name ERA5)) test_bbox test_times [''surface_pressure''] w2)
        ''download/era5/properties.json''
      = Some \<lparr>prop_spatial_bounds = test_bbox, prop_time_bounds = test_times,
            prop_variable_names = [''surface_pressure'']\<rparr>"
    by (simp add: write_properties_file_def path_join_def ERA5_def)
  have p2: "fst (download_with ERA5
          (\<lambda>folder. cds_request (test_server 3) ''reanalysis-era5-single-levels''
             [''surface_pressure''] test_times test_bbox folder test_era5_names True)
          ''download'' test_times test_bbox [''surface_pressure''] test_world) = Inr True
   \<and> properties (snd (download_with ERA5
          (\<lambda>folder. cds_request (test_server 3) ''reanalysis-era5-single-levels''
             [''surface_pressure''] test_times test_bbox folder test_era5_names True)
          ''download'' test_times test_bbox [''surface_pressure''] test_world))
        ''download/era5/properties.json''
      = Some \<lparr>prop_spatial_bounds = test_bbox, prop_time_bounds = test_times,
            prop_variable_names = [''surface_pressure'']\<rparr>"
    by (rule conjI, simp add: run)
      (simp only: written pw)
  from test_once_first_item [of "\<lparr>url = ''a'', key = ''123:abc-def''\<rparr>" "''reanalysis-era5-single-levels''" "''era5''" test_bbox
      "path_join ''download'' (ds_name ERA5)" "''2010''" "''1''"]
  obtain wb where first: "for_each (cds_item test_server_once \<lparr>url = ''a'', key = ''123:abc-def''\<rparr> ''reanalysis-era5-single-levels'' ''era5'' test_bbox (path_join ''download'' (ds_name ERA5)) test_era5_names True)
      [((''2010'', ''1''), ''surface_pressure'')] test_made = (Inr (), wb)" and called: "calls wb \<noteq> []"
    by (elim exE conjE)
  have rejected: "test_server_once \<lparr>url = ''a'', key = ''123:abc-def''\<rparr> (calls wb) ''reanalysis-era5-single-levels''
      (mk_request ''surface_pressure'' ''2010'' ''2'' test_bbox) = Inl (RemoteError ''rejected'')"
    using called by (simp add: test_server_once_def)
  have prod3: "List.product [(''2010'', ''1''), (''2010'', ''2'')] [''surface_pressure''] =
      [((''2010'', ''1''), ''surface_pressure'')] @ ((''2010'', ''2''), ''surface_pressure'') # []"
    by simp
  have p3: "fst (download_with ERA5
          (\<lambda>folder. cds_request test_server_once ''reanalysis-era5-single-levels''
             [''surface_pressure''] test_two_months test_bbox folder test_era5_names True)
          ''download'' test_two_months test_bbox [''surface_pressure''] test_world) = Inl (RemoteError ''rejected'')
   \<and> properties (snd (download_with ERA5
          (\<lambda>folder. cds_request test_server_once ''reanalysis-era5-single-levels''
             [''surface_pressure''] test_two_months test_bbox folder test_era5_names True)
          ''download'' test_two_months test_bbox [''surface_pressure''] test_world)) = properties test_world"
    apply (rule mp [OF ERA5_download_errors_propagate
      [where srv = "test_server_once" and dir = "''download''" and tb = test_two_months and sb = test_bbox
        and vars = "[''surface_pressure'']" and ow = True and w = test_world and wa = test_made
        and dataset = "''reanalysis-era5-single-levels''" and fname = "''era5''" and names = test_era5_names
        and c = "\<lparr>url = ''a'', key = ''123:abc-def''\<rparr>"
        and pairs = "[(''2010'', ''1''), (''2010'', ''2'')]" and before = "[((''2010'', ''1''), ''surface_pressure'')]"
        and y = "''2010''" and m = "''2''" and v = "''surface_pressure''" and rest = "[]"
        and wb = wb and e = "RemoteError ''rejected''",
        THEN conjunct2, THEN conjunct2, THEN conjunct2, THEN conjunct2, THEN conjunct2,
        THEN conjunct1]])
    apply (intro conjI)
           apply (rule test_era5_within(3))
          apply (rule test_mkdir)
         apply (rule test_era5_fname)
        apply (rule test_made_config)
       apply (rule test_two_months_pairs)
      apply (rule prod3)
     apply (rule first)
    apply (rule disjI2, rule disjI1, rule exI [where x = "''surface_pressure''"])
    apply (simp add: test_era5_names_def rejected)
    done
  have prod4: "List.product [(''2010'', ''1'')] [''surface_pressure'', ''10m_u_component_of_wind''] =
      [((''2010'', ''1''), ''surface_pressure'')] @ ((''2010'', ''1''), ''10m_u_component_of_wind'') # []"
    by simp
  have p4: "fst (download_with ERA5
          (\<lambda>folder. cds_request (test_server 3) ''reanalysis-era5-single-levels''
             [''surface_pressure'', ''10m_u_component_of_wind''] test_times test_bbox folder test_era5_names True)
          ''download'' test_times test_bbox [''surface_pressure'', ''10m_u_component_of_wind''] test_world) = Inl (KeyError ''10m_u_component_of_wind'')
   \<and> properties (snd (download_with ERA5
          (\<lambda>folder. cds_request (test_server 3) ''reanalysis-era5-single-levels''
             [''surface_pressure'', ''10m_u_component_of_wind''] test_times test_bbox folder test_era5_names True)
          ''download'' test_times test_bbox [''surface_pressure'', ''10m_u_component_of_wind''] test_world)) = properties test_world"
    apply (rule mp [OF ERA5_download_errors_propagate
      [where srv = "test_server 3" and dir = "''download''" and tb = test_times and sb = test_bbox
        and vars = "[''surface_pressure'', ''10m_u_component_of_wind'']" and ow = True and w = test_world and wa = test_made
        and dataset = "''reanalysis-era5-single-levels''" and fname = "''era5''" and names = test_era5_names
        and c = "\<lparr>url = ''a'', key = ''123:abc-def''\<rparr>"
        and pairs = "[(''2010'', ''1'')]" and before = "[((''2010'', ''1''), ''surface_pressure'')]"
        and y = "''2010''" and m = "''1''" and v = "''10m_u_component_of_wind''" and rest = "[]"
        and wb = "snd (for_each (cds_item (test_server 3) \<lparr>url = ''a'', key = ''123:abc-def''\<rparr> ''reanalysis-era5-single-levels'' ''era5'' test_bbox (path_join ''download'' (ds_name ERA5)) test_era5_names True) [((''2010'', ''1''), ''surface_pressure'')] test_made)" and e = "KeyError ''10m_u_component_of_wind''",
        THEN conjunct2, THEN conjunct2, THEN conjunct2, THEN conjunct2, THEN conjunct2,
        THEN conjunct1]])
    apply (intro conjI)
           apply (rule test_era5_within(2))
          apply (rule test_mkdir)
         apply (rule test_era5_fname)
        apply (rule test_made_config)
       apply (rule test_times_pairs)
      apply (rule prod4)
     apply (rule test_era5_first_item)
    apply (rule disjI1)
    apply (simp add: test_era5_names_def)
    done
  have prod5: "List.product [(''2010'', ''1'')] [''surface_pressure''] = [] @ ((''2010'', ''1''), ''surface_pressure'') # []"
    by simp
  have p5: "fst (download_with ERA5
          (\<lambda>folder. cds_request (\<lambda>c evs d q. Inr \<lparr>content_length = 3, download_result = Inl (RemoteError ''transfer'')\<rparr>) ''reanalysis-era5-single-levels''
             [''surface_pressure''] test_times test_bbox folder test_era5_names True)
          ''download'' test_times test_bbox [''surface_pressure''] test_world) = Inl (RemoteError ''transfer'')
   \<and> properties (snd (download_with ERA5
          (\<lambda>folder. cds_request (\<lambda>c evs d q. Inr \<lparr>content_length = 3, download_result = Inl (RemoteError ''transfer'')\<rparr>) ''reanalysis-era5-single-levels''
             [''surface_pressure''] test_times test_bbox folder test_era5_names True)
          ''download'' test_times test_bbox [''surface_pressure''] test_world)) = properties test_world"
    apply (rule mp [OF ERA5_download_errors_propagate
      [where srv = "(\<lambda>c evs d q. Inr \<lparr>content_length = 3, download_result = Inl (RemoteError ''transfer'')\<rparr>)" and dir = "''download''" and tb = test_times and sb = test_bbox
        and vars = "[''surface_pressure'']" and ow = True and w = test_world and wa = test_made
        and dataset = "''reanalysis-era5-single-levels''" and fname = "''era5''" and names = test_era5_names
        and c = "\<lparr>url = ''a'', key = ''123:abc-def''\<rparr>"
        and pairs = "[(''2010'', ''1'')]" and before = "[]"
        and y = "''2010''" and m = "''1''" and v = "''surface_pressure''" and rest = "[]"
        and wb = test_made and e = "RemoteError ''transfer''",
        THEN conjunct2, THEN conjunct2, THEN conjunct2, THEN conjunct2, THEN conjunct2,
        THEN conjunct1]])
    apply (intro conjI)
           apply (rule test_era5_within(1))
          apply (rule test_mkdir)
         apply (rule test_era5_fname)
        apply (rule test_made_config)
       apply (rule test_times_pairs)
      apply (rule prod5)
     apply (rule for_each.simps(1))
    apply (rule disjI2, rule disjI2, rule exI [where x = "''surface_pressure''"],
        rule exI [where x = "\<lparr>content_length = 3, download_result = Inl (RemoteError ''transfer'')\<rparr>"])
    apply (simp add: test_era5_names_def)
    done
  have p6: "ERA5_download (test_server 3) ''download'' test_times test_bbox [''surface_pressure''] True test_world
      = (Inl (TypeError ''unexpected keyword argument product''), test_made)"
    by (rule mp [OF ERA5_download_errors_propagate
          [where srv = "test_server 3" and dir = "''download''" and tb = test_times
            and sb = test_bbox and vars = "[''surface_pressure'']" and ow = True
            and w = test_world and wa = test_made,
            THEN conjunct2, THEN conjunct2, THEN conjunct2, THEN conjunct2, THEN conjunct2,
            THEN conjunct2]
          conjI [OF test_era5_within(1) test_mkdir]])
  show ?thesis
    by (rule conjI [OF p1 conjI [OF p2 conjI [OF p3 conjI [OF p4 conjI [OF p5 p6]]]]])
qed

section \<open>Facts about the normalizer\<close>

lemma canonical_names_not_registered:
  "list_all (\<lambda>c. map_of var_reference_era5_to_zampy c = None)
     (map snd var_reference_era5_to_zampy)"
  by (simp add: var_reference_era5_to_zampy_def)

lemma canonical_not_registered:
  assumes "map_of var_reference_era5_to_zampy v = Some c"
  shows "map_of var_reference_era5_to_zampy c = None"
proof -
  from assms have "(v, c) \<in> set var_reference_era5_to_zampy" by (rule map_of_SomeD)
  then have "c \<in> set (map snd var_reference_era5_to_zampy)" by force
  with canonical_names_not_registered show ?thesis by (auto simp: list_all_iff)
qed

lemma canonical_neq:
  assumes "map_of var_reference_era5_to_zampy v = Some c"
  shows "c \<noteq> v"
  using assms canonical_not_registered [OF assms] by auto

lemma map_of_setitem: "map_of (setitem ds n x) = (map_of ds)(n \<mapsto> x)"
  by (simp add: setitem_def update_conv')

lemma keys_setitem:
  "n \<in> set (map fst ds) \<Longrightarrow> map fst (setitem ds n x) = map fst ds"
  by (simp add: setitem_def update_keys)

lemma getitem_Inr: "getitem ds n = Inr x \<longleftrightarrow> map_of ds n = Some x"
  by (simp add: getitem_def split: option.split)

lemma map_of_Some_key: "map_of ds n = Some x \<Longrightarrow> n \<in> set (map fst ds)"
  by (metis domI dom_map_of_conv_image_fst set_map)

lemma only_changes_refl: "only_changes n ds ds"
  by (simp add: only_changes_def)

lemma only_changes_trans:
  "only_changes n a b \<Longrightarrow> only_changes n b c \<Longrightarrow> only_changes n a c"
  by (simp add: only_changes_def)

lemma only_changes_setitem:
  "n \<in> set (map fst ds) \<Longrightarrow> only_changes n ds (setitem ds n x)"
  by (simp add: only_changes_def keys_setitem map_of_setitem)

lemma only_changes_keys: "only_changes n a b \<Longrightarrow> set (map fst b) = set (map fst a)"
  by (simp add: only_changes_def)

lemma set_attr_Inr:
  assumes "set_attr ds n k v = Inr ds'"
  shows "\<exists>x. map_of ds n = Some x
           \<and> ds' = setitem ds n (x\<lparr>attrs := AList.update k v (attrs x)\<rparr>)"
  using assms by (auto simp: set_attr_def getitem_def split: option.splits)

lemma only_changes_set_attr:
  assumes "set_attr ds n k v = Inr ds'"
  shows "only_changes n ds ds'"
proof -
  from set_attr_Inr [OF assms] obtain x where x: "map_of ds n = Some x"
      "ds' = setitem ds n (x\<lparr>attrs := AList.update k v (attrs x)\<rparr>)" by blast
  from x(1) have "n \<in> set (map fst ds)" by (rule map_of_Some_key)
  then show ?thesis unfolding x(2) by (rule only_changes_setitem)
qed

lemma convert_var_Inr:
  assumes "convert_var conv ds n u = Inr ds'"
  shows "\<exists>x old f. map_of ds n = Some x \<and> map_of (attrs x) ''units'' = Some old
           \<and> conv old u = Some f
           \<and> ds' = setitem ds n \<lparr>vals = map f (vals x),
                                  attrs = AList.update ''units'' u (attrs x)\<rparr>"
  using assms by (auto simp: convert_var_def getitem_def split: option.splits)

lemma only_changes_convert_var:
  assumes "convert_var conv ds n u = Inr ds'"
  shows "only_changes n ds ds'"
proof -
  from convert_var_Inr [OF assms] obtain x old f where x: "map_of ds n = Some x"
      "ds' = setitem ds n \<lparr>vals = map f (vals x),
                           attrs = AList.update ''units'' u (attrs x)\<rparr>" by blast
  from x(1) have "n \<in> set (map fst ds)" by (rule map_of_Some_key)
  then show ?thesis unfolding x(2) by (rule only_changes_setitem)
qed

lemma only_changes_rescale:
  assumes "rescale lookup conv n ds = Inr ds'"
  shows "only_changes n ds ds'"
proof -
  consider (rad) "n = ''surface_solar_radiation_downwards''
        \<or> n = ''surface_thermal_radiation_downwards''"
    | (pre) "\<not> (n = ''surface_solar_radiation_downwards''
        \<or> n = ''surface_thermal_radiation_downwards'')" "n = ''total_precipitation''"
    | (oth) "\<not> (n = ''surface_solar_radiation_downwards''
        \<or> n = ''surface_thermal_radiation_downwards'')" "n \<noteq> ''total_precipitation''"
    by blast
  then show ?thesis
  proof cases
    case rad
    with assms obtain x where x: "map_of ds n = Some x" "ds' = setitem ds n (div_array x 3600)"
      by (auto simp: rescale_def getitem_def split: option.splits)
    from x(1) have "n \<in> set (map fst ds)" by (rule map_of_Some_key)
    then show ?thesis unfolding x(2) by (rule only_changes_setitem)
  next
    case pre
    with assms obtain x ds1 ref where x: "map_of ds n = Some x"
      "set_attr (setitem ds n (div_array x WATER_DENSITY)) n ''units'' ''meter_per_second''
         = Inr ds1"
      "lookup n = Some ref"
      "convert_var conv ds1 n (var_unit ref) = Inr ds'"
      by (auto simp: rescale_def getitem_def split: option.splits sum.splits)
    from x(1) have "n \<in> set (map fst ds)" by (rule map_of_Some_key)
    then have "only_changes n ds (setitem ds n (div_array x WATER_DENSITY))"
      by (rule only_changes_setitem)
    then have "only_changes n ds ds1"
      using only_changes_set_attr [OF x(2)] by (rule only_changes_trans)
    then show ?thesis
      using only_changes_convert_var [OF x(4)] by (rule only_changes_trans)
  next
    case oth
    with assms have "ds' = ds" by (simp add: rescale_def)
    then show ?thesis by (simp add: only_changes_refl)
  qed
qed

lemma map_of_renamed_other:
  "j \<noteq> old \<Longrightarrow> j \<noteq> new \<Longrightarrow>
     map_of (map (\<lambda>(k, x). (if k = old then new else k, x)) ds) j = map_of ds j"
  by (induction ds) auto

lemma map_of_renamed_new:
  "new \<notin> set (map fst ds) \<Longrightarrow>
     map_of (map (\<lambda>(k, x). (if k = old then new else k, x)) ds) new = map_of ds old"
  by (induction ds) auto

lemma keys_renamed:
  "map fst (map (\<lambda>(k, x). (if k = old then new else k, x)) ds)
     = map (\<lambda>k. if k = old then new else k) (map fst ds)"
  by (induction ds) auto

lemma rename_Inr:
  assumes "rename ds old new = Inr ds1" and "new \<noteq> old"
  shows "old \<in> set (map fst ds) \<and> new \<notin> set (map fst ds)
         \<and> map fst ds1 = map (\<lambda>k. if k = old then new else k) (map fst ds)
         \<and> map_of ds1 new = map_of ds old
         \<and> (\<forall>j. j \<noteq> old \<and> j \<noteq> new \<longrightarrow> map_of ds1 j = map_of ds j)"
proof -
  from assms have a: "old \<in> set (map fst ds)" "new \<notin> set (map fst ds)"
      "ds1 = map (\<lambda>(k, x). (if k = old then new else k, x)) ds"
    by (auto simp: rename_def split: if_splits)
  have k: "map fst ds1 = map (\<lambda>k. if k = old then new else k) (map fst ds)"
    unfolding a(3) by (rule keys_renamed)
  have n: "map_of ds1 new = map_of ds old"
    unfolding a(3) using a(2) by (rule map_of_renamed_new)
  have o: "\<forall>j. j \<noteq> old \<and> j \<noteq> new \<longrightarrow> map_of ds1 j = map_of ds j"
    unfolding a(3) by (simp add: map_of_renamed_other)
  show ?thesis by (intro conjI a(1) a(2) k n o)
qed

lemma parse_variable_unregistered:
  "\<not> registered v \<Longrightarrow> parse_variable lookup conv v ds = Inr ds"
  by (simp add: parse_variable_def registered_def)

lemma parse_variable_Inr:
  assumes "parse_variable lookup conv v ds = Inr ds'"
    and "map_of var_reference_era5_to_zampy v = Some c"
  shows "\<exists>ds1 ds2 ds3 ref. rename ds v c = Inr ds1 \<and> rescale lookup conv c ds1 = Inr ds2
           \<and> lookup c = Some ref
           \<and> set_attr ds2 c ''units'' (var_unit ref) = Inr ds3
           \<and> set_attr ds3 c ''description'' (var_desc ref) = Inr ds'"
  using assms by (auto simp: parse_variable_def split: sum.splits option.splits)

lemma parse_variable_registered:
  assumes "parse_variable lookup conv v ds = Inr ds'"
    and "map_of var_reference_era5_to_zampy v = Some c"
  shows "v \<in> set (map fst ds) \<and> c \<notin> set (map fst ds)
         \<and> map fst ds' = map (\<lambda>k. if k = v then c else k) (map fst ds)
         \<and> (\<forall>j. j \<noteq> v \<and> j \<noteq> c \<longrightarrow> map_of ds' j = map_of ds j)"
proof -
  from parse_variable_Inr [OF assms] obtain ds1 ds2 ds3 ref where
    s: "rename ds v c = Inr ds1" "rescale lookup conv c ds1 = Inr ds2"
       "set_attr ds2 c ''units'' (var_unit ref) = Inr ds3"
       "set_attr ds3 c ''description'' (var_desc ref) = Inr ds'"
       "lookup c = Some ref"
    by blast
  have "only_changes c ds1 ds2" using s(2) by (rule only_changes_rescale)
  then have "only_changes c ds1 ds3"
    using only_changes_set_attr [OF s(3)] by (rule only_changes_trans)
  then have oc: "only_changes c ds1 ds'"
    using only_changes_set_attr [OF s(4)] by (rule only_changes_trans)
  note r = rename_Inr [OF s(1) canonical_neq [OF assms(2)]]
  show ?thesis using r oc by (simp add: only_changes_def)
qed

lemma parse_variable_frame:
  assumes "parse_variable lookup conv v ds = Inr ds'"
    and "k \<noteq> v \<or> \<not> registered k"
    and "map_of ds k = Some x"
  shows "map_of ds' k = Some x"
proof (cases "map_of var_reference_era5_to_zampy v")
  case None
  then have "\<not> registered v" by (simp add: registered_def)
  then have "ds' = ds" using assms(1) by (simp add: parse_variable_unregistered)
  with assms(3) show ?thesis by simp
next
  case (Some c)
  then have "registered v" by (simp add: registered_def)
  with assms(2) have kv: "k \<noteq> v" by blast
  note r = parse_variable_registered [OF assms(1) Some]
  from assms(3) have "k \<in> set (map fst ds)" by (rule map_of_Some_key)
  with r have kc: "k \<noteq> c" by blast
  from r kv kc have "map_of ds' k = map_of ds k" by blast
  with assms(3) show ?thesis by simp
qed

lemma parse_loop_frame:
  assumes "parse_loop lookup conv vs ds = Inr ds'"
    and "k \<notin> set vs \<or> \<not> registered k"
    and "map_of ds k = Some x"
  shows "map_of ds' k = Some x"
  using assms
proof (induction vs arbitrary: ds)
  case Nil
  then show ?case by simp
next
  case (Cons v vs)
  from Cons.prems(1) obtain d where d: "parse_variable lookup conv v ds = Inr d"
      "parse_loop lookup conv vs d = Inr ds'"
    by (auto split: sum.splits)
  from Cons.prems(2) have a: "k \<noteq> v \<or> \<not> registered k" and b: "k \<notin> set vs \<or> \<not> registered k"
    by auto
  have "map_of d k = Some x" using d(1) a Cons.prems(3) by (rule parse_variable_frame)
  with Cons.IH [OF d(2) b] show ?case by blast
qed

lemma parse_loop_append:
  "parse_loop lookup conv (xs @ ys) ds =
     (case parse_loop lookup conv xs ds of
        Inl e \<Rightarrow> Inl e
      | Inr d \<Rightarrow> parse_loop lookup conv ys d)"
  by (induction xs arbitrary: ds) (auto split: sum.splits)

lemma parse_nc_file_at:
  assumes "parse_nc_file lookup conv ds = Inr ds'"
    and "map_of ds v = Some x"
  shows "\<exists>d1 d2. map_of d1 v = Some x \<and> parse_variable lookup conv v d1 = Inr d2
           \<and> (\<forall>k y. \<not> registered k \<longrightarrow> map_of d2 k = Some y \<longrightarrow> map_of ds' k = Some y)"
proof -
  from assms(2) have "v \<in> set (map fst ds)" by (rule map_of_Some_key)
  then obtain pre post where sp: "map fst ds = pre @ v # post" "v \<notin> set pre"
    by (meson split_list_first)
  from assms(1) have "parse_loop lookup conv (pre @ v # post) ds = Inr ds'"
    by (simp add: parse_nc_file_def sp(1))
  then obtain d1 d2 where d: "parse_loop lookup conv pre ds = Inr d1"
      "parse_variable lookup conv v d1 = Inr d2" "parse_loop lookup conv post d2 = Inr ds'"
    by (auto simp: parse_loop_append split: sum.splits)
  have "map_of d1 v = Some x"
    using d(1) _ assms(2) by (rule parse_loop_frame) (simp add: sp(2))
  moreover have "\<forall>k y. \<not> registered k \<longrightarrow> map_of d2 k = Some y \<longrightarrow> map_of ds' k = Some y"
    using parse_loop_frame [OF d(3)] by blast
  ultimately show ?thesis using d(2) by blast
qed


lemma parse_variable_radiation:
  assumes "parse_variable lookup conv v ds = Inr ds'"
    and "map_of var_reference_era5_to_zampy v = Some c"
    and "c = ''surface_solar_radiation_downwards'' \<or> c = ''surface_thermal_radiation_downwards''"
    and "map_of ds v = Some x"
  shows "\<exists>ref. lookup c = Some ref
           \<and> map_of ds' c = Some \<lparr>vals = map (\<lambda>V. V / 3600) (vals x),
                attrs = [(''units'', var_unit ref), (''description'', var_desc ref)]\<rparr>"
proof -
  from parse_variable_Inr [OF assms(1,2)] obtain ds1 ds2 ds3 ref where
    s: "rename ds v c = Inr ds1" "rescale lookup conv c ds1 = Inr ds2"
       "set_attr ds2 c ''units'' (var_unit ref) = Inr ds3"
       "set_attr ds3 c ''description'' (var_desc ref) = Inr ds'"
       "lookup c = Some ref"
    by blast
  from rename_Inr [OF s(1) canonical_neq [OF assms(2)]] assms(4)
  have m1: "map_of ds1 c = Some x" by simp
  from s(2) assms(3) m1 have d2: "ds2 = setitem ds1 c (div_array x 3600)"
    by (auto simp: rescale_def getitem_def)
  from s(3) have d3: "ds3 = setitem ds2 c
      \<lparr>vals = map (\<lambda>V. V / 3600) (vals x), attrs = [(''units'', var_unit ref)]\<rparr>"
    unfolding d2 by (simp add: set_attr_def getitem_def map_of_setitem div_array_def)
  from s(4) have "ds' = setitem ds3 c
      \<lparr>vals = map (\<lambda>V. V / 3600) (vals x),
       attrs = [(''units'', var_unit ref), (''description'', var_desc ref)]\<rparr>"
    unfolding d3 by (simp add: set_attr_def getitem_def map_of_setitem)
  then have "map_of ds' c = Some \<lparr>vals = map (\<lambda>V. V / 3600) (vals x),
       attrs = [(''units'', var_unit ref), (''description'', var_desc ref)]\<rparr>"
    by (simp add: map_of_setitem)
  with s(5) show ?thesis by blast
qed

lemma parse_variable_precipitation:
  assumes "parse_variable lookup conv v ds = Inr ds'"
    and "map_of var_reference_era5_to_zampy v = Some ''total_precipitation''"
    and "map_of ds v = Some x"
  shows "\<exists>ref f. lookup ''total_precipitation'' = Some ref
           \<and> conv ''meter_per_second'' (var_unit ref) = Some f
           \<and> map_of ds' ''total_precipitation'' =
               Some \<lparr>vals = map f (map (\<lambda>V. V / WATER_DENSITY) (vals x)),
                 attrs = [(''units'', var_unit ref), (''description'', var_desc ref)]\<rparr>"
proof -
  let ?c = "''total_precipitation''"
  from parse_variable_Inr [OF assms(1,2)] obtain ds1 ds2 ds3 ref where
    s: "rename ds v ?c = Inr ds1" "rescale lookup conv ?c ds1 = Inr ds2"
       "set_attr ds2 ?c ''units'' (var_unit ref) = Inr ds3"
       "set_attr ds3 ?c ''description'' (var_desc ref) = Inr ds'"
       "lookup ?c = Some ref"
    by blast
  from rename_Inr [OF s(1) canonical_neq [OF assms(2)]] assms(3)
  have m1: "map_of ds1 ?c = Some x" by simp
  from s(2) m1 s(5) have cv: "convert_var conv
      (setitem (setitem ds1 ?c (div_array x WATER_DENSITY)) ?c
         \<lparr>vals = map (\<lambda>V. V / WATER_DENSITY) (vals x),
          attrs = [(''units'', ''meter_per_second'')]\<rparr>)
      ?c (var_unit ref) = Inr ds2"
    by (simp add: rescale_def getitem_def set_attr_def map_of_setitem div_array_def)
  from convert_var_Inr [OF cv] obtain f where
    f: "conv ''meter_per_second'' (var_unit ref) = Some f"
       "ds2 = setitem (setitem (setitem ds1 ?c (div_array x WATER_DENSITY)) ?c
         \<lparr>vals = map (\<lambda>V. V / WATER_DENSITY) (vals x),
          attrs = [(''units'', ''meter_per_second'')]\<rparr>) ?c
         \<lparr>vals = map f (map (\<lambda>V. V / WATER_DENSITY) (vals x)),
          attrs = [(''units'', var_unit ref)]\<rparr>"
    by (auto simp: map_of_setitem)
  from s(3) have d3: "ds3 = setitem ds2 ?c
      \<lparr>vals = map f (map (\<lambda>V. V / WATER_DENSITY) (vals x)),
       attrs = [(''units'', var_unit ref)]\<rparr>"
    unfolding f(2) by (simp add: set_attr_def getitem_def map_of_setitem)
  from s(4) have "ds' = setitem ds3 ?c
      \<lparr>vals = map f (map (\<lambda>V. V / WATER_DENSITY) (vals x)),
       attrs = [(''units'', var_unit ref), (''description'', var_desc ref)]\<rparr>"
    unfolding d3 by (simp add: set_attr_def getitem_def map_of_setitem)
  then have "map_of ds' ?c = Some
      \<lparr>vals = map f (map (\<lambda>V. V / WATER_DENSITY) (vals x)),
       attrs = [(''units'', var_unit ref), (''description'', var_desc ref)]\<rparr>"
    by (simp add: map_of_setitem)
  with s(5) f(1) show ?thesis by blast
qed

lemma parse_variable_registered_keys:
  assumes "parse_variable lookup conv v ds = Inr ds'"
  shows "{k \<in> set (map fst ds'). registered k} \<subseteq> {k \<in> set (map fst ds). registered k} - {v}"
proof (cases "map_of var_reference_era5_to_zampy v")
  case None
  then have n: "\<not> registered v" by (simp add: registered_def)
  then have "ds' = ds" using assms by (simp add: parse_variable_unregistered)
  with n show ?thesis by auto
next
  case (Some c)
  note r = parse_variable_registered [OF assms Some]
  have c: "\<not> registered c"
    using canonical_not_registered [OF Some] by (simp add: registered_def)
  from r have "set (map fst ds') = (\<lambda>k. if k = v then c else k) ` set (map fst ds)"
    by (simp only: set_map [symmetric])
  then show ?thesis using c canonical_neq [OF Some] by auto
qed

lemma parse_loop_registered_keys:
  assumes "parse_loop lookup conv vs ds = Inr ds'"
    and "{k \<in> set (map fst ds). registered k} \<subseteq> set vs"
  shows "{k \<in> set (map fst ds'). registered k} = {}"
  using assms
proof (induction vs arbitrary: ds)
  case Nil
  then show ?case by simp
next
  case (Cons v vs)
  from Cons.prems(1) obtain d where d: "parse_variable lookup conv v ds = Inr d"
      "parse_loop lookup conv vs d = Inr ds'"
    by (auto split: sum.splits)
  from parse_variable_registered_keys [OF d(1)] Cons.prems(2)
  have "{k \<in> set (map fst d). registered k} \<subseteq> set vs" by auto
  with Cons.IH [OF d(2)] show ?case by blast
qed

lemma parse_loop_unregistered:
  assumes "list_all (\<lambda>k. \<not> registered k) vs"
  shows "parse_loop lookup conv vs ds = Inr ds"
  using assms by (induction vs) (simp_all add: parse_variable_unregistered)

lemma test_file_parsed:
  "parse_nc_file test_lookup test_conv test_file = Inr test_file_normalized"
  by (simp add: parse_nc_file_def test_file_def parse_variable_def var_reference_era5_to_zampy_def
      rename_def rescale_def getitem_def setitem_def set_attr_def div_array_def convert_var_def
      test_lookup_def test_conv_def WATER_DENSITY_def test_file_normalized_def)


section \<open>Rescaling radiation and precipitation\<close>

text \<open>
  Claim C5. When the normalizer returns a dataset for a file that holds a variable whose
  raw code maps to \<open>surface_solar_radiation_downwards\<close> or
  \<open>surface_thermal_radiation_downwards\<close>, the output holds the variable under that name,
  every value \<open>V\<close> replaced by \<open>V / 3600\<close>, and its \<open>units\<close> attribute is the unit string
  of the reference table for that name.
\<close>

theorem parse_nc_file_radiation:
  assumes "parse_nc_file lookup conv file = Inr ds'"
    and "map_of file v = Some x"
    and "map_of var_reference_era5_to_zampy v = Some c"
    and "c = ''surface_solar_radiation_downwards'' \<or> c = ''surface_thermal_radiation_downwards''"
  shows "\<exists>ref y. lookup c = Some ref \<and> map_of ds' c = Some y
           \<and> vals y = map (\<lambda>V. V / 3600) (vals x)
           \<and> map_of (attrs y) ''units'' = Some (var_unit ref)"
proof -
  from parse_nc_file_at [OF assms(1,2)] obtain d1 d2 where
    d: "map_of d1 v = Some x" "parse_variable lookup conv v d1 = Inr d2"
       "\<forall>k y. \<not> registered k \<longrightarrow> map_of d2 k = Some y \<longrightarrow> map_of ds' k = Some y"
    by blast
  from parse_variable_radiation [OF d(2) assms(3,4) d(1)] obtain ref where
    r: "lookup c = Some ref"
       "map_of d2 c = Some \<lparr>vals = map (\<lambda>V. V / 3600) (vals x),
          attrs = [(''units'', var_unit ref), (''description'', var_desc ref)]\<rparr>"
    by blast
  have "\<not> registered c"
    using canonical_not_registered [OF assms(3)] by (simp add: registered_def)
  with d(3) r(2) have "map_of ds' c = Some \<lparr>vals = map (\<lambda>V. V / 3600) (vals x),
          attrs = [(''units'', var_unit ref), (''description'', var_desc ref)]\<rparr>"
    by blast
  with r(1) show ?thesis by simp
qed

theorem parse_nc_file_radiation_witness:
  "map_of test_file ''ssrd'' =
     Some \<lparr>vals = [7200, 0], attrs = [(''units'', ''J m**-2''), (''long_name'', ''ssrd'')]\<rparr>
   \<and> map_of var_reference_era5_to_zampy ''ssrd'' = Some ''surface_solar_radiation_downwards''
   \<and> parse_nc_file test_lookup test_conv test_file = Inr test_file_normalized
   \<and> (\<exists>y. map_of test_file_normalized ''surface_solar_radiation_downwards'' = Some y
         \<and> vals y = [7200 / 3600, 0 / 3600]
         \<and> map_of (attrs y) ''units'' = Some ''watt / meter ** 2'')"
proof -
  have a: "map_of test_file ''ssrd'' =
     Some \<lparr>vals = [7200, 0], attrs = [(''units'', ''J m**-2''), (''long_name'', ''ssrd'')]\<rparr>"
    by (simp add: test_file_def)
  have b: "map_of var_reference_era5_to_zampy ''ssrd'' = Some ''surface_solar_radiation_downwards''"
    by (simp add: var_reference_era5_to_zampy_def)
  have d: "''surface_solar_radiation_downwards'' = ''surface_solar_radiation_downwards''
      \<or> ''surface_solar_radiation_downwards'' = ''surface_thermal_radiation_downwards''"
    by simp
  have l: "test_lookup ''surface_solar_radiation_downwards'' =
      Some \<lparr>var_unit = ''watt / meter ** 2'', var_desc = ''Surface solar radiation''\<rparr>"
    by (simp add: test_lookup_def)
  from parse_nc_file_radiation [OF test_file_parsed a b d] obtain ref y where
    r1: "test_lookup ''surface_solar_radiation_downwards'' = Some ref"
    and r2: "map_of test_file_normalized ''surface_solar_radiation_downwards'' = Some y"
    and r3: "vals y = map (\<lambda>V. V / 3600)
        (vals \<lparr>vals = [7200, 0], attrs = [(''units'', ''J m**-2''), (''long_name'', ''ssrd'')]\<rparr>)"
    and r4: "map_of (attrs y) ''units'' = Some (var_unit ref)"
    by (elim exE conjE)
  from r1 l have ref: "ref = \<lparr>var_unit = ''watt / meter ** 2'', var_desc = ''Surface solar radiation''\<rparr>"
    by simp
  have v: "vals y = [7200 / 3600, 0 / 3600]" using r3 by simp
  have u: "map_of (attrs y) ''units'' = Some ''watt / meter ** 2''" using r4 ref by simp
  have e: "\<exists>y. map_of test_file_normalized ''surface_solar_radiation_downwards'' = Some y
         \<and> vals y = [7200 / 3600, 0 / 3600]
         \<and> map_of (attrs y) ''units'' = Some ''watt / meter ** 2''"
    by (rule exI [of _ y]) (intro conjI r2 v u)
  show ?thesis by (intro conjI a b test_file_parsed e)
qed

text \<open>
  Claim C4. When the normalizer returns a dataset for a file that holds a variable whose
  raw code maps to \<open>total_precipitation\<close>, the output holds the variable under that name,
  every value \<open>V\<close> replaced by \<open>V / 997\<close> converted from metres per second to the unit of
  the reference table for that name, and its \<open>units\<close> attribute is that unit string.
\<close>

theorem parse_nc_file_precipitation:
  assumes "parse_nc_file lookup conv file = Inr ds'"
    and "map_of file v = Some x"
    and "map_of var_reference_era5_to_zampy v = Some ''total_precipitation''"
  shows "\<exists>ref f y. lookup ''total_precipitation'' = Some ref
           \<and> conv ''meter_per_second'' (var_unit ref) = Some f
           \<and> map_of ds' ''total_precipitation'' = Some y
           \<and> vals y = map (\<lambda>V. f (V / 997)) (vals x)
           \<and> map_of (attrs y) ''units'' = Some (var_unit ref)"
proof -
  from parse_nc_file_at [OF assms(1,2)] obtain d1 d2 where
    d: "map_of d1 v = Some x" "parse_variable lookup conv v d1 = Inr d2"
       "\<forall>k y. \<not> registered k \<longrightarrow> map_of d2 k = Some y \<longrightarrow> map_of ds' k = Some y"
    by blast
  from parse_variable_precipitation [OF d(2) assms(3) d(1)] obtain ref f where
    r: "lookup ''total_precipitation'' = Some ref"
       "conv ''meter_per_second'' (var_unit ref) = Some f"
       "map_of d2 ''total_precipitation'' =
          Some \<lparr>vals = map f (map (\<lambda>V. V / WATER_DENSITY) (vals x)),
            attrs = [(''units'', var_unit ref), (''description'', var_desc ref)]\<rparr>"
    by blast
  have "\<not> registered ''total_precipitation''"
    using canonical_not_registered [OF assms(3)] by (simp add: registered_def)
  with d(3) r(3) have "map_of ds' ''total_precipitation'' =
          Some \<lparr>vals = map f (map (\<lambda>V. V / WATER_DENSITY) (vals x)),
            attrs = [(''units'', var_unit ref), (''description'', var_desc ref)]\<rparr>"
    by blast
  with r(1,2) show ?thesis by (simp add: WATER_DENSITY_def comp_def)
qed

theorem parse_nc_file_precipitation_witness:
  "map_of test_file ''mtpr'' =
     Some \<lparr>vals = [1994, 997], attrs = [(''units'', ''kg m**-2 s**-1'')]\<rparr>
   \<and> map_of var_reference_era5_to_zampy ''mtpr'' = Some ''total_precipitation''
   \<and> test_conv ''meter_per_second'' ''millimeter / second'' = Some (\<lambda>v. v * 1000)
   \<and> parse_nc_file test_lookup test_conv test_file = Inr test_file_normalized
   \<and> (\<exists>y. map_of test_file_normalized ''total_precipitation'' = Some y
         \<and> vals y = [1994 / 997 * 1000, 997 / 997 * 1000]
         \<and> map_of (attrs y) ''units'' = Some ''millimeter / second'')"
proof -
  have a: "map_of test_file ''mtpr'' =
     Some \<lparr>vals = [1994, 997], attrs = [(''units'', ''kg m**-2 s**-1'')]\<rparr>"
    by (simp add: test_file_def)
  have b: "map_of var_reference_era5_to_zampy ''mtpr'' = Some ''total_precipitation''"
    by (simp add: var_reference_era5_to_zampy_def)
  have l: "test_lookup ''total_precipitation'' =
      Some \<lparr>var_unit = ''millimeter / second'', var_desc = ''Total precipitation''\<rparr>"
    by (simp add: test_lookup_def)
  have c: "test_conv ''meter_per_second'' ''millimeter / second'' = Some (\<lambda>v. v * 1000)"
    by (simp add: test_conv_def)
  from parse_nc_file_precipitation [OF test_file_parsed a b] obtain ref f y where
    r1: "test_lookup ''total_precipitation'' = Some ref"
    and r2: "test_conv ''meter_per_second'' (var_unit ref) = Some f"
    and r3: "map_of test_file_normalized ''total_precipitation'' = Some y"
    and r4: "vals y = map (\<lambda>V. f (V / 997))
        (vals \<lparr>vals = [1994, 997], attrs = [(''units'', ''kg m**-2 s**-1'')]\<rparr>)"
    and r5: "map_of (attrs y) ''units'' = Some (var_unit ref)"
    by (elim exE conjE)
  from r1 l have ref: "ref = \<lparr>var_unit = ''millimeter / second'', var_desc = ''Total precipitation''\<rparr>"
    by simp
  from r2 ref c have f: "f = (\<lambda>v. v * 1000)" by simp
  have v: "vals y = [1994 / 997 * 1000, 997 / 997 * 1000]" using r4 f by simp
  have u: "map_of (attrs y) ''units'' = Some ''millimeter / second''" using r5 ref by simp
  have e: "\<exists>y. map_of test_file_normalized ''total_precipitation'' = Some y
         \<and> vals y = [1994 / 997 * 1000, 997 / 997 * 1000]
         \<and> map_of (attrs y) ''units'' = Some ''millimeter / second''"
    by (rule exI [of _ y]) (intro conjI r3 v u)
  show ?thesis by (intro conjI a b c test_file_parsed e)
qed

section \<open>Variables without an entry, and a second run\<close>

text \<open>
  Claim C6. When the normalizer returns a dataset, every variable of the file whose name
  has no entry in \<open>var_reference_era5_to_zampy\<close> is in the output under the same name
  with the same values and the same attributes.
\<close>

theorem parse_nc_file_unregistered_unchanged:
  assumes "parse_nc_file lookup conv file = Inr ds'"
    and "map_of file u = Some x"
    and "map_of var_reference_era5_to_zampy u = None"
  shows "map_of ds' u = Some x"
proof -
  have "\<not> registered u" using assms(3) by (simp add: registered_def)
  then have "u \<notin> set (map fst file) \<or> \<not> registered u" by simp
  with assms(1) show ?thesis
    unfolding parse_nc_file_def using assms(2) by (rule parse_loop_frame)
qed

theorem parse_nc_file_unregistered_unchanged_witness:
  "map_of test_file ''time'' = Some \<lparr>vals = [0, 1], attrs = [(''units'', ''hours'')]\<rparr>
   \<and> map_of var_reference_era5_to_zampy ''time'' = None
   \<and> parse_nc_file test_lookup test_conv test_file = Inr test_file_normalized
   \<and> map_of test_file_normalized ''time'' =
       Some \<lparr>vals = [0, 1], attrs = [(''units'', ''hours'')]\<rparr>"
proof -
  have a: "map_of test_file ''time'' = Some \<lparr>vals = [0, 1], attrs = [(''units'', ''hours'')]\<rparr>"
    by (simp add: test_file_def)
  have b: "map_of var_reference_era5_to_zampy ''time'' = None"
    by (simp add: var_reference_era5_to_zampy_def)
  note t = parse_nc_file_unregistered_unchanged [OF test_file_parsed a b]
  show ?thesis by (intro conjI a b test_file_parsed t)
qed

text \<open>
  Claim C7. The normalizer is idempotent: when it returns a dataset, running it on that
  dataset returns the same dataset. No name of the output is a key of
  \<open>var_reference_era5_to_zampy\<close>, so the second run renames, rescales and stamps nothing.
\<close>

theorem parse_nc_file_idempotent:
  assumes "parse_nc_file lookup conv file = Inr ds'"
  shows "parse_nc_file lookup conv ds' = Inr ds'"
proof -
  have "{k \<in> set (map fst file). registered k} \<subseteq> set (map fst file)" by blast
  with assms have "{k \<in> set (map fst ds'). registered k} = {}"
    unfolding parse_nc_file_def by (rule parse_loop_registered_keys)
  then have "list_all (\<lambda>k. \<not> registered k) (map fst ds')"
    unfolding list_all_iff by blast
  then show ?thesis
    unfolding parse_nc_file_def by (rule parse_loop_unregistered)
qed

theorem parse_nc_file_idempotent_witness:
  "parse_nc_file test_lookup test_conv test_file = Inr test_file_normalized
   \<and> parse_nc_file test_lookup test_conv test_file_normalized = Inr test_file_normalized
   \<and> map fst test_file_normalized =
       [''time'', ''surface_solar_radiation_downwards'', ''total_precipitation'']"
proof -
  note t = parse_nc_file_idempotent [OF test_file_parsed]
  have k: "map fst test_file_normalized =
       [''time'', ''surface_solar_radiation_downwards'', ''total_precipitation'']"
    by (simp add: test_file_normalized_def)
  show ?thesis by (intro conjI test_file_parsed t k)
qed


end
